theory Spec2Isabelle
  imports Main "HOL-Library.Sublist"
begin

section \<open>Python strings\<close>

text \<open>
  A Python \<open>str\<close> is a \<open>string\<close>, one \<open>char\<close> per character, so the model covers
  text whose characters have code points up to 255. On that range \<open>lower_char\<close> is
  \<open>str.lower\<close> (the capital letters are A to Z and U+00C0 to U+00DE without the
  multiplication sign U+00D7; the small letter is 32 higher, that is bit 5 set) and
  \<open>isspace\<close> is the whitespace that \<open>str.strip\<close> removes.
\<close>

definition lower_char :: "char \<Rightarrow> char" where
  "lower_char c =
     (let n = (of_char c :: nat) in
      if (65 \<le> n \<and> n \<le> 90) \<or> (192 \<le> n \<and> n \<le> 222 \<and> n \<noteq> 215)
      then (case c of Char b0 b1 b2 b3 b4 b5 b6 b7 \<Rightarrow> Char b0 b1 b2 b3 b4 True b6 b7)
      else c)"

definition lower :: "string \<Rightarrow> string" where
  "lower s = map lower_char s"

definition isspace :: "char \<Rightarrow> bool" where
  "isspace c =
     (let n = (of_char c :: nat) in
      (9 \<le> n \<and> n \<le> 13) \<or> (28 \<le> n \<and> n \<le> 32) \<or> n = 133 \<or> n = 160)"

definition strip :: "string \<Rightarrow> string" where
  "strip s = rev (dropWhile isspace (rev (dropWhile isspace s)))"

text \<open>\<open>s.split('\n')\<close>: the pieces between line feeds; never the empty list.\<close>

fun split_newline :: "string \<Rightarrow> string list" where
  "split_newline [] = [[]]"
| "split_newline (c # cs) =
     (if c = CHR 0x0A then [] # split_newline cs
      else (case split_newline cs of
              [] \<Rightarrow> [[c]]
            | l # ls \<Rightarrow> (c # l) # ls))"

text \<open>\<open>k in s\<close>: \<open>k\<close> occurs in \<open>s\<close> as a contiguous piece.\<close>

fun str_in :: "string \<Rightarrow> string \<Rightarrow> bool" where
  "str_in k [] = (k = [])"
| "str_in k (c # cs) = (prefix k (c # cs) \<or> str_in k cs)"

text \<open>\<open>any(keyword in line.lower() for keyword in keywords)\<close>\<close>

definition any_keyword :: "string list \<Rightarrow> string \<Rightarrow> bool" where
  "any_keyword keywords line = list_ex (\<lambda>keyword. str_in keyword (lower line)) keywords"

text \<open>\<open>[line.strip() for line in out.split('\n') if line.strip()]\<close>\<close>

definition output_lines :: "string \<Rightarrow> string list" where
  "output_lines out = map strip (filter (\<lambda>line. strip line \<noteq> []) (split_newline out))"

subsection \<open>Formatting\<close>

definition digit :: "nat \<Rightarrow> char" where
  "digit d = ''0123456789'' ! (d mod 10)"

function str_nat :: "nat \<Rightarrow> string" where
  "str_nat n = (if n < 10 then [digit n] else str_nat (n div 10) @ [digit n])"
  by pat_completeness auto
termination
  by (relation "measure id") auto

declare str_nat.simps [simp del]

definition str_int :: "int \<Rightarrow> string" where
  "str_int i = (if i < 0 then CHR ''-'' # str_nat (nat (- i)) else str_nat (nat i))"

text \<open>The format specifications \<open>{n:2d}\<close>, \<open>{n:3d}\<close> (right-justified) and \<open>{s:12s}\<close>
  (left-justified); \<open>c * n\<close> for a one-character string.\<close>

definition fmt_d :: "nat \<Rightarrow> nat \<Rightarrow> string" where
  "fmt_d width n = replicate (width - length (str_nat n)) CHR '' '' @ str_nat n"

definition fmt_s :: "nat \<Rightarrow> string \<Rightarrow> string" where
  "fmt_s width s = s @ replicate (width - length s) CHR '' ''"

definition rule_line :: "char \<Rightarrow> nat \<Rightarrow> string" where
  "rule_line c n = replicate n c"

section \<open>The world outside the script\<close>

text \<open>
  What a subprocess invocation can do: complete with an exit code and the two captured
  texts, or raise. The exceptions are the subclasses of \<open>Exception\<close> that
  \<open>subprocess.run\<close> raises; each carries \<open>str(e)\<close>, and \<open>OtherException\<close> also the name
  of its type.
\<close>

datatype py_exception =
    TimeoutExpired string
  | FileNotFoundError string
  | OtherException string string

fun str_exc :: "py_exception \<Rightarrow> string" where
  "str_exc (TimeoutExpired m) = m"
| "str_exc (FileNotFoundError m) = m"
| "str_exc (OtherException n m) = m"

datatype completed_process =
  CompletedProcess (returncode: int) (stdout: string) (stderr: string)

text \<open>
  The environment, the platform, the file system and the installed binary are read, never
  written: a \<open>world\<close> answers each question the script asks. \<open>subprocess_run\<close> takes the
  argument vector and the timeout in seconds.
\<close>

record world =
  os_environ :: "string \<Rightarrow> string option"
  platform_system :: string
  platform_machine :: string
  platform_python_version :: string
  path_exists :: "string \<Rightarrow> bool"
  subprocess_run :: "string list \<Rightarrow> nat \<Rightarrow> py_exception + completed_process"

text \<open>\<open>os.path.exists\<close>: the empty string names no file on any platform.\<close>

definition os_path_exists :: "world \<Rightarrow> string \<Rightarrow> bool" where
  "os_path_exists w p = (p \<noteq> [] \<and> path_exists w p)"

text \<open>
  What an operation does to the world, in order: a line written to standard output, a
  path whose existence is checked, a subprocess started with a timeout. Up to the last
  section of definitions every line is written; that section follows the operations on
  a standard output that can refuse a line.
\<close>

datatype event =
    Print string
  | Exists string
  | Run "string list" nat

definition probes :: "event list \<Rightarrow> string list" where
  "probes t = concat (map (\<lambda>e. case e of Exists p \<Rightarrow> [p] | _ \<Rightarrow> []) t)"

definition invocations :: "event list \<Rightarrow> (string list \<times> nat) list" where
  "invocations t = concat (map (\<lambda>e. case e of Run argv secs \<Rightarrow> [(argv, secs)] | _ \<Rightarrow> []) t)"

section \<open>get_qgis_path\<close>

definition backslash :: char where
  "backslash = CHR 0x5C"

fun win_path :: "string list \<Rightarrow> string" where
  "win_path [] = []"
| "win_path [part] = part"
| "win_path (part # parts) = part @ backslash # win_path parts"

text \<open>The three-way platform switch; \<open>None\<close> is the \<open>else\<close> branch.\<close>

definition possible_paths :: "string \<Rightarrow> string list option" where
  "possible_paths system =
     (if system = ''windows'' then Some
        [win_path [''C:'', ''Program Files'', ''QGIS 3.42.3'', ''bin'', ''qgis_process-qgis.bat''],
         win_path [''C:'', ''Program Files'', ''QGIS 3.40.0'', ''bin'', ''qgis_process-qgis.bat''],
         win_path [''C:'', ''Program Files'', ''QGIS 3.38.0'', ''bin'', ''qgis_process-qgis.bat''],
         win_path [''C:'', ''OSGeo4W'', ''bin'', ''qgis_process-qgis.bat''],
         win_path [''C:'', ''OSGeo4W64'', ''bin'', ''qgis_process-qgis.bat'']]
      else if system = ''linux'' then Some
        [''/usr/bin/qgis_process'',
         ''/usr/local/bin/qgis_process'',
         ''/opt/qgis/bin/qgis_process'',
         ''/usr/bin/qgis-lts'',
         ''/usr/bin/qgis'']
      else if system = ''darwin'' then Some
        [''/Applications/QGIS.app/Contents/MacOS/bin/qgis_process'',
         ''/usr/local/bin/qgis_process'']
      else None)"

text \<open>The loop over \<open>possible_paths\<close>: it stops at the first path that exists.\<close>

fun first_existing :: "world \<Rightarrow> string list \<Rightarrow> string option \<times> event list" where
  "first_existing w [] = (None, [])"
| "first_existing w (path # paths) =
     (if os_path_exists w path
      then (Some path, [Exists path, Print (''Found QGIS at: '' @ path)])
      else (case first_existing w paths of (r, t) \<Rightarrow> (r, Exists path # t)))"

text \<open>The part of \<open>get_qgis_path\<close> after the environment variable.\<close>

definition platform_default :: "world \<Rightarrow> string option \<times> event list" where
  "platform_default w =
     (let system = lower (platform_system w) in
      case possible_paths system of
        None \<Rightarrow> (None, [Print (''Unsupported platform: '' @ system)])
      | Some paths \<Rightarrow>
          (case first_existing w paths of
             (Some path, t) \<Rightarrow> (Some path, t)
           | (None, t) \<Rightarrow> (None, t @ [Print (''QGIS not found on '' @ system @ '' platform'')])))"

definition get_qgis_path :: "world \<Rightarrow> string option \<times> event list" where
  "get_qgis_path w =
     (case os_environ w ''QGIS_PATH'' of
        None \<Rightarrow> platform_default w
      | Some qgis_path \<Rightarrow>
          if qgis_path = [] then platform_default w
          else if os_path_exists w qgis_path
          then (Some qgis_path,
                [Exists qgis_path, Print (''Using QGIS from environment variable: '' @ qgis_path)])
          else (case platform_default w of (r, t) \<Rightarrow> (r, Exists qgis_path # t)))"

section \<open>Console text and returned records\<close>

text \<open>
  The pictographs that open some console messages lie beyond the characters modelled
  here; each is a named constant holding its UTF-8 bytes, so that the messages stay
  distinct.
\<close>

definition emoji_magnifier :: string where
  "emoji_magnifier = [CHR 0xF0, CHR 0x9F, CHR 0x94, CHR 0x8D]"

definition emoji_cross :: string where
  "emoji_cross = [CHR 0xE2, CHR 0x9D, CHR 0x8C]"

definition emoji_bulb :: string where
  "emoji_bulb = [CHR 0xF0, CHR 0x9F, CHR 0x92, CHR 0xA1]"

definition emoji_check :: string where
  "emoji_check = [CHR 0xE2, CHR 0x9C, CHR 0x85]"

definition emoji_clipboard :: string where
  "emoji_clipboard = [CHR 0xF0, CHR 0x9F, CHR 0x93, CHR 0x8B]"

definition emoji_dividers :: string where
  "emoji_dividers = [CHR 0xF0, CHR 0x9F, CHR 0x97, CHR 0x82, CHR 0xEF, CHR 0xB8, CHR 0x8F]"

definition emoji_chart :: string where
  "emoji_chart = [CHR 0xF0, CHR 0x9F, CHR 0x93, CHR 0x8A]"

text \<open>
  The values stored in the dictionaries that \<open>get_qgis_info\<close> and \<open>test_qgis_algorithm\<close>
  return. A dictionary is a map from its keys: a key that was never assigned is \<open>None\<close>
  of the map, a key assigned Python's \<open>None\<close> is \<open>Some PyNone\<close>.
\<close>

datatype pyval =
    PyNone
  | PyBool bool
  | PyInt int
  | PyStr string
  | PyList "string list"

type_synonym pydict = "string \<rightharpoonup> pyval"

section \<open>check_qgis_algorithms\<close>

text \<open>The keyword list of the filter in \<open>check_qgis_algorithms\<close>.\<close>

definition tile_raster_keywords :: "string list" where
  "tile_raster_keywords = [''tile'', ''qtiles'', ''xyz'', ''tms'', ''raster'']"

definition tile_algorithms_of :: "string list \<Rightarrow> string list" where
  "tile_algorithms_of lines = filter (any_keyword tile_raster_keywords) lines"

text \<open>The \<open>categories\<close> dictionary, in insertion order.\<close>

definition categories :: "(string \<times> string list) list" where
  "categories =
     [(''Vector'', [''vector'', ''geometry'', ''buffer'', ''clip'']),
      (''Raster'', [''raster'', ''dem'', ''slope'', ''aspect'']),
      (''Processing'', [''dissolve'', ''merge'', ''join'', ''intersect'']),
      (''Analysis'', [''distance'', ''area'', ''statistics'', ''spatial'']),
      (''Export'', [''export'', ''save'', ''write'', ''output''])]"

text \<open>\<open>sum(1 for line in lines if any(keyword in line.lower() for keyword in keywords))\<close>\<close>

definition category_count :: "string list \<Rightarrow> string list \<Rightarrow> nat" where
  "category_count keywords lines =
     sum_list (map (\<lambda>line. 1) (filter (any_keyword keywords) lines))"

definition category_line :: "string \<Rightarrow> nat \<Rightarrow> string" where
  "category_line category count =
     ''  '' @ fmt_s 12 category @ '': '' @ fmt_d 3 count @ '' algorithms''"

text \<open>\<open>for i, alg in enumerate(xs): print(f"  {i+1:2d}. {alg}")\<close>\<close>

definition numbered :: "string list \<Rightarrow> event list" where
  "numbered xs =
     map (\<lambda>(i, alg). Print (''  '' @ fmt_d 2 (i + 1) @ ''. '' @ alg)) (enumerate 0 xs)"

text \<open>The banner and the system information, before the path is resolved.\<close>

definition system_information :: "world \<Rightarrow> event list" where
  "system_information w =
     [Print (emoji_magnifier @ '' QGIS Algorithm Checker''),
      Print (rule_line CHR ''='' 40),
      Print ''System Information:'',
      Print (''  Platform: '' @ platform_system w),
      Print (''  Architecture: '' @ platform_machine w),
      Print (''  Python Version: '' @ platform_python_version w),
      Print (''  Environment: '' @
             (case os_environ w ''FLASK_ENV'' of None \<Rightarrow> ''production'' | Some v \<Rightarrow> v)),
      Print []]"

text \<open>The advice printed when no path was resolved.\<close>

definition not_found_help :: "event list" where
  "not_found_help =
     [Print (emoji_cross @ '' QGIS not found on this system''),
      Print (CHR 0x0A # emoji_bulb @ '' Solutions:''),
      Print ''  1. For local development:'',
      Print ''     - Windows: Install QGIS Desktop from qgis.org'',
      Print ''     - Linux: sudo apt install qgis'',
      Print ''     - macOS: brew install qgis'',
      Print ''  2. For Railway deployment:'',
      Print ''     - Use Docker with QGIS pre-installed'',
      Print ''     - Set QGIS_PATH environment variable'',
      Print ''  3. Alternative: Manual tile download is working!'']"

text \<open>The inner \<open>try\<close> around the version check: whatever it raises is dropped.\<close>

definition check_version :: "world \<Rightarrow> string \<Rightarrow> event list" where
  "check_version w qgis_path =
     Run [qgis_path, ''--version''] 30 #
     (case subprocess_run w [qgis_path, ''--version''] 30 of
        Inl e \<Rightarrow> []
      | Inr version_result \<Rightarrow>
          if returncode version_result = 0
          then [Print (''QGIS Version: '' @ strip (stdout version_result))]
          else [])"

text \<open>
  What is printed from the listing once the \<open>list\<close> command has succeeded, in four
  parts: the total with the first ten lines, the tile-related lines (the first fifteen),
  the category counts, and the closing summary.
\<close>

definition report_sample :: "string list \<Rightarrow> event list" where
  "report_sample lines =
     [Print (CHR 0x0A # emoji_clipboard @ '' Total algorithms found: '' @
             str_nat (length lines)),
      Print (rule_line CHR ''='' 50),
      Print ''Sample algorithms:''] @
     numbered (take 10 lines) @
     (if length lines > 10
      then [Print (''  ... and '' @ str_nat (length lines - 10) @ '' more'')]
      else [])"

definition report_tile :: "string list \<Rightarrow> event list" where
  "report_tile tile_algorithms =
     [Print (CHR 0x0A # emoji_dividers @ ''  Tile/Raster-related algorithms ('' @
             str_nat (length tile_algorithms) @ '' found):''),
      Print (rule_line CHR ''='' 50)] @
     (if tile_algorithms \<noteq> []
      then numbered (take 15 tile_algorithms) @
           (if length tile_algorithms > 15
            then [Print (''  ... and '' @ str_nat (length tile_algorithms - 15) @
                         '' more tile-related algorithms'')]
            else [])
      else [Print ''  No tile-specific algorithms found''])"

definition report_categories :: "string list \<Rightarrow> event list" where
  "report_categories lines =
     [Print (CHR 0x0A # emoji_chart @ '' Algorithm Categories:''),
      Print (rule_line CHR ''='' 30)] @
     map (\<lambda>(category, keywords).
            Print (category_line category (category_count keywords lines))) categories"

definition report_summary :: "string \<Rightarrow> string list \<Rightarrow> string list \<Rightarrow> event list" where
  "report_summary qgis_path lines tile_algorithms =
     [Print (CHR 0x0A # emoji_check @ '' QGIS is working properly!''),
      Print (''   Path: '' @ qgis_path),
      Print (''   Total algorithms: '' @ str_nat (length lines)),
      Print (''   Tile-related: '' @ str_nat (length tile_algorithms))]"

definition report_algorithms :: "string \<Rightarrow> string \<Rightarrow> event list" where
  "report_algorithms qgis_path out =
     (let lines = output_lines out;
          tile_algorithms = tile_algorithms_of lines
      in report_sample lines @
         report_tile tile_algorithms @
         report_categories lines @
         report_summary qgis_path lines tile_algorithms)"

text \<open>The body of the outer \<open>try\<close>: \<open>Inl\<close> is an exception on its way to the handlers.\<close>

definition try_check :: "world \<Rightarrow> string \<Rightarrow> (py_exception + bool) \<times> event list" where
  "try_check w qgis_path =
     (let t0 = [Print (emoji_check @ '' QGIS found at: '' @ qgis_path),
                Print ''Checking QGIS version and algorithms...''] @
               check_version w qgis_path @
               [Run [qgis_path, ''list''] 60]
      in case subprocess_run w [qgis_path, ''list''] 60 of
           Inl e \<Rightarrow> (Inl e, t0)
         | Inr result \<Rightarrow>
             if returncode result \<noteq> 0
             then (Inr False,
                   t0 @ [Print (emoji_cross @ '' QGIS command failed: '' @ stderr result),
                         Print (''Return code: '' @ str_int (returncode result))])
             else (Inr True, t0 @ report_algorithms qgis_path (stdout result)))"

definition timeout_message :: "event list" where
  "timeout_message =
     [Print (emoji_cross @ '' QGIS command timed out (60 seconds)''),
      Print ''This might indicate QGIS is installed but not working properly'']"

definition generic_message :: "string \<Rightarrow> string \<Rightarrow> event list" where
  "generic_message type_name msg =
     [Print (emoji_cross @ '' Error checking QGIS: '' @ msg),
      Print (''Exception type: '' @ type_name)]"

text \<open>The three \<open>except\<close> clauses, in the order of the source.\<close>

fun check_handlers :: "string \<Rightarrow> py_exception \<Rightarrow> (py_exception + bool) \<times> event list" where
  "check_handlers qgis_path (TimeoutExpired m) = (Inr False, timeout_message)"
| "check_handlers qgis_path (FileNotFoundError m) =
     (Inr False, [Print (emoji_cross @ '' QGIS executable not found at: '' @ qgis_path)])"
| "check_handlers qgis_path (OtherException n m) = (Inr False, generic_message n m)"

definition check_qgis_algorithms :: "world \<Rightarrow> (py_exception + bool) \<times> event list" where
  "check_qgis_algorithms w =
     (case get_qgis_path w of
        (qgis_path, t1) \<Rightarrow>
          (case qgis_path of
             None \<Rightarrow> (Inr False, system_information w @ t1 @ not_found_help)
           | Some p \<Rightarrow>
               if p = [] then (Inr False, system_information w @ t1 @ not_found_help)
               else (case try_check w p of
                       (Inr b, t2) \<Rightarrow> (Inr b, system_information w @ t1 @ t2)
                     | (Inl e, t2) \<Rightarrow>
                         (case check_handlers p e of
                            (r, t3) \<Rightarrow> (r, system_information w @ t1 @ t2 @ t3)))))"

section \<open>get_qgis_info\<close>

text \<open>The keyword list of the filter in \<open>get_qgis_info\<close>.\<close>

definition info_tile_keywords :: "string list" where
  "info_tile_keywords = [''tile'', ''qtiles'', ''xyz'', ''tms'']"

definition initial_info :: "world \<Rightarrow> string option \<Rightarrow> pydict" where
  "initial_info w qgis_path =
     [''qgis_found'' \<mapsto> PyBool (qgis_path \<noteq> None),
      ''qgis_path'' \<mapsto> (case qgis_path of None \<Rightarrow> PyNone | Some p \<Rightarrow> PyStr p),
      ''platform'' \<mapsto> PyStr (platform_system w),
      ''manual_method_available'' \<mapsto> PyBool True]"

text \<open>
  The body of the \<open>try\<close>. Only the \<open>list\<close> invocation can leave it by an exception, and
  it runs before \<open>info\<close> is changed; the version check has a \<open>try\<close> of its own.
\<close>

definition try_info :: "world \<Rightarrow> string \<Rightarrow> pydict \<Rightarrow> (py_exception + pydict) \<times> event list" where
  "try_info w qgis_path info =
     (case subprocess_run w [qgis_path, ''list''] 30 of
        Inl e \<Rightarrow> (Inl e, [Run [qgis_path, ''list''] 30])
      | Inr result \<Rightarrow>
          if returncode result = 0
          then (let lines = output_lines (stdout result);
                    info1 = info(''total_algorithms'' \<mapsto> PyInt (int (length lines)),
                                 ''tile_algorithms'' \<mapsto>
                                   PyList (take 5 (filter (any_keyword info_tile_keywords) lines)),
                                 ''qgis_working'' \<mapsto> PyBool True,
                                 ''qgis_version'' \<mapsto> PyStr ''Available'');
                    t = [Run [qgis_path, ''list''] 30, Run [qgis_path, ''--version''] 10]
                in case subprocess_run w [qgis_path, ''--version''] 10 of
                     Inl e \<Rightarrow> (Inr info1, t)
                   | Inr version_result \<Rightarrow>
                       if returncode version_result = 0
                       then (Inr (info1(''qgis_version'' \<mapsto>
                                          PyStr (strip (stdout version_result)))), t)
                       else (Inr info1, t))
          else (Inr (info(''qgis_working'' \<mapsto> PyBool False,
                          ''error'' \<mapsto> PyStr (if stderr result \<noteq> [] then stderr result
                                                 else ''QGIS command failed''))),
                [Run [qgis_path, ''list''] 30]))"

text \<open>The two \<open>except\<close> clauses, in the order of the source.\<close>

fun info_handlers :: "pydict \<Rightarrow> py_exception \<Rightarrow> pydict" where
  "info_handlers info (TimeoutExpired m) =
     info(''qgis_working'' \<mapsto> PyBool False, ''error'' \<mapsto> PyStr ''QGIS command timed out'')"
| "info_handlers info e =
     info(''qgis_working'' \<mapsto> PyBool False, ''error'' \<mapsto> PyStr (str_exc e))"

definition get_qgis_info :: "world \<Rightarrow> (py_exception + pydict) \<times> event list" where
  "get_qgis_info w =
     (case get_qgis_path w of
        (qgis_path, t1) \<Rightarrow>
          (let info = initial_info w qgis_path in
           case qgis_path of
             None \<Rightarrow> (Inr info, t1)
           | Some p \<Rightarrow>
               if p = [] then (Inr info, t1)
               else (case try_info w p info of
                       (Inr info', t2) \<Rightarrow> (Inr info', t1 @ t2)
                     | (Inl e, t2) \<Rightarrow> (Inr (info_handlers info e), t1 @ t2))))"

section \<open>test_qgis_algorithm\<close>

definition test_qgis_algorithm :: "world \<Rightarrow> string \<Rightarrow> (py_exception + pydict) \<times> event list" where
  "test_qgis_algorithm w algorithm_name =
     (case get_qgis_path w of
        (qgis_path, t1) \<Rightarrow>
          (case qgis_path of
             None \<Rightarrow> (Inr [''error'' \<mapsto> PyStr ''QGIS not found''], t1)
           | Some p \<Rightarrow>
               if p = [] then (Inr [''error'' \<mapsto> PyStr ''QGIS not found''], t1)
               else (case subprocess_run w [p, ''help'', algorithm_name] 30 of
                       Inr result \<Rightarrow>
                         if returncode result = 0
                         then (Inr [''algorithm'' \<mapsto> PyStr algorithm_name,
                                    ''available'' \<mapsto> PyBool True,
                                    ''help'' \<mapsto> PyStr (take 1000 (stdout result)),
                                    ''qgis_path'' \<mapsto> PyStr p],
                               t1 @ [Run [p, ''help'', algorithm_name] 30])
                         else (Inr [''algorithm'' \<mapsto> PyStr algorithm_name,
                                    ''available'' \<mapsto> PyBool False,
                                    ''error'' \<mapsto> PyStr (stderr result),
                                    ''qgis_path'' \<mapsto> PyStr p],
                               t1 @ [Run [p, ''help'', algorithm_name] 30])
                     | Inl e \<Rightarrow>
                         (Inr [''algorithm'' \<mapsto> PyStr algorithm_name,
                               ''available'' \<mapsto> PyBool False,
                               ''error'' \<mapsto> PyStr (str_exc e),
                               ''qgis_path'' \<mapsto> PyStr p],
                          t1 @ [Run [p, ''help'', algorithm_name] 30]))))"

section \<open>Sample worlds\<close>

text \<open>A binary that cannot be started.\<close>

definition no_process :: "string list \<Rightarrow> nat \<Rightarrow> py_exception + completed_process" where
  "no_process argv secs = Inl (FileNotFoundError ''[Errno 2] No such file or directory'')"

text \<open>
  A world given by its platform name, the value of \<open>QGIS_PATH\<close>, the paths that exist and
  the behaviour of the binary.
\<close>

definition example_world ::
  "string \<Rightarrow> string option \<Rightarrow> (string \<Rightarrow> bool) \<Rightarrow>
   (string list \<Rightarrow> nat \<Rightarrow> py_exception + completed_process) \<Rightarrow> world" where
  "example_world system qgis_env ex run =
     \<lparr>os_environ = (\<lambda>k. if k = ''QGIS_PATH'' then qgis_env else None),
      platform_system = system,
      platform_machine = ''x86_64'',
      platform_python_version = ''3.11.4'',
      path_exists = ex,
      subprocess_run = run\<rparr>"

text \<open>A Linux machine whose \<open>QGIS_PATH\<close> is stale and whose third and fifth candidates exist.\<close>

definition fallback_world :: world where
  "fallback_world =
     example_world ''Linux'' (Some ''/missing/qgis_process'')
       (\<lambda>p. p = ''/opt/qgis/bin/qgis_process'' \<or> p = ''/usr/bin/qgis'') no_process"

text \<open>The existence check that \<open>get_qgis_path\<close> makes for the environment variable, if any.\<close>

definition env_probe :: "world \<Rightarrow> string list" where
  "env_probe w =
     (case os_environ w ''QGIS_PATH'' of
        None \<Rightarrow> []
      | Some p \<Rightarrow> if p = [] then [] else [p])"

text \<open>An invocation succeeded: it completed, with exit code zero.\<close>

definition succeeded :: "py_exception + completed_process \<Rightarrow> bool" where
  "succeeded r = (case r of Inl e \<Rightarrow> False | Inr result \<Rightarrow> returncode result = 0)"

text \<open>
  A binary whose behaviour is a table from its arguments (after the path) to what the
  invocation does; any other command exits with code 1.
\<close>

definition scripted ::
  "(string list \<times> (py_exception + completed_process)) list \<Rightarrow>
   string list \<Rightarrow> nat \<Rightarrow> py_exception + completed_process" where
  "scripted table argv secs =
     (case map_of table (tl argv) of
        Some r \<Rightarrow> r
      | None \<Rightarrow> Inr (CompletedProcess 1 [] ''unknown command''))"

text \<open>A Linux machine with the binary at the first candidate path and no \<open>QGIS_PATH\<close>.\<close>

definition linux_world :: "(string list \<times> (py_exception + completed_process)) list \<Rightarrow> world" where
  "linux_world table =
     example_world ''Linux'' None (\<lambda>p. p = ''/usr/bin/qgis_process'') (scripted table)"

text \<open>A Linux machine without the binary.\<close>

definition bare_world :: world where
  "bare_world = example_world ''Linux'' None (\<lambda>p. False) no_process"

text \<open>
  The words of the specification: a line contains a keyword case-insensitively when some
  contiguous piece of the line is the keyword once lowered.
\<close>

definition contains_ci :: "string \<Rightarrow> string \<Rightarrow> bool" where
  "contains_ci line keyword = (\<exists>ps s ss. line = ps @ s @ ss \<and> lower s = keyword)"

text \<open>
  The value under a key of the dictionary an operation returned; \<open>None\<close> when the key is
  absent (or when nothing was returned, see \<open>raised\<close>).
\<close>

definition field :: "(py_exception + pydict) \<times> event list \<Rightarrow> string \<Rightarrow> pyval option" where
  "field r k = (case fst r of Inl e \<Rightarrow> None | Inr d \<Rightarrow> d k)"

definition raised :: "(py_exception + 'a) \<times> event list \<Rightarrow> bool" where
  "raised r = (case fst r of Inl e \<Rightarrow> True | Inr v \<Rightarrow> False)"

text \<open>A binary started on a path it may not execute; its version check hangs.\<close>

definition denied_world :: world where
  "denied_world =
     linux_world
       [([''--version''], Inl (TimeoutExpired ''timed out after 30 seconds'')),
        ([''list''], Inl (OtherException ''PermissionError'' ''[Errno 13] Permission denied''))]"

text \<open>The listing of the sample scenario, as the binary writes it.\<close>

definition sample_listing :: string where
  "sample_listing =
     ''buffer\<newline>qtiles_generate\<newline>raster_calc\<newline>dissolve\<newline>xyz_export\<newline>''"

text \<open>
  A working installation: the version, the sample listing, and a help text of 1500
  characters for one algorithm.
\<close>

definition working_world :: world where
  "working_world =
     linux_world
       [([''--version''], Inr (CompletedProcess 0 ''QGIS 3.34.4\<newline>'' [])),
        ([''list''], Inr (CompletedProcess 0 sample_listing [])),
        ([''help'', ''native:buffer''], Inr (CompletedProcess 0 (replicate 1500 CHR ''x'') []))]"

text \<open>An installation whose listing has one line, with a raster and an export keyword.\<close>

definition overlap_world :: world where
  "overlap_world =
     linux_world [([''list''], Inr (CompletedProcess 0 ''raster export tool\<newline>'' []))]"

text \<open>A working installation whose version check hangs until its timeout.\<close>

definition slow_version_world :: world where
  "slow_version_world =
     linux_world
       [([''--version''], Inl (TimeoutExpired ''Command timed out'')),
        ([''list''], Inr (CompletedProcess 0 sample_listing []))]"

text \<open>An installation whose listing hangs until its timeout.\<close>

definition slow_list_world :: world where
  "slow_list_world =
     linux_world
       [([''--version''], Inr (CompletedProcess 0 ''QGIS 3.34.4\<newline>'' [])),
        ([''list''], Inl (TimeoutExpired ''Command timed out''))]"

text \<open>The first line of the timeout report of \<open>check_qgis_algorithms\<close>.\<close>

definition timeout_line :: event where
  "timeout_line = Print (emoji_cross @ '' QGIS command timed out (60 seconds)'')"

section \<open>Standard output that can refuse a line\<close>

text \<open>
  \<open>print\<close> raises when standard output cannot take the text: a pictograph on a stream
  whose encoding lacks it raises \<open>UnicodeEncodeError\<close>, a closed pipe raises
  \<open>BrokenPipeError\<close>. A console says for each text whether writing it succeeds (\<open>None\<close>)
  or which exception it raises. The definitions of the sections above are the run in
  which every line is written. The definitions below follow the same statements on a
  console that may refuse a line; nothing but \<open>print\<close> is treated differently.
\<close>

type_synonym console = "string \<Rightarrow> py_exception option"

text \<open>
  A stretch of statements with no handler around them, which would do the events \<open>t\<close>:
  it ends at the first line that the console refuses, having done what comes before
  that line, and nothing of the refused line is written.
\<close>

fun emit :: "console \<Rightarrow> event list \<Rightarrow> py_exception option \<times> event list" where
  "emit con [] = (None, [])"
| "emit con (Print s # t) =
     (case con s of
        Some e \<Rightarrow> (Some e, [])
      | None \<Rightarrow> (case emit con t of (r, t') \<Rightarrow> (r, Print s # t')))"
| "emit con (Exists p # t) = (case emit con t of (r, t') \<Rightarrow> (r, Exists p # t'))"
| "emit con (Run argv secs # t) = (case emit con t of (r, t') \<Rightarrow> (r, Run argv secs # t'))"

text \<open>Such a stretch with the value \<open>v\<close> it yields when it reaches its end.\<close>

definition written :: "console \<Rightarrow> event list \<Rightarrow> 'a \<Rightarrow> (py_exception + 'a) \<times> event list" where
  "written con t v =
     (case emit con t of
        (None, t') \<Rightarrow> (Inr v, t')
      | (Some e, t') \<Rightarrow> (Inl e, t'))"

text \<open>\<open>get_qgis_path\<close> has no \<open>try\<close>: a refused line ends it with the exception.\<close>

definition get_qgis_path_on ::
  "console \<Rightarrow> world \<Rightarrow> (py_exception + string option) \<times> event list" where
  "get_qgis_path_on con w = (case get_qgis_path w of (r, t) \<Rightarrow> written con t r)"

text \<open>
  The inner \<open>try\<close> around the version check: its bare \<open>except\<close> also drops the exception
  of a refused version line.
\<close>

definition check_version_on :: "console \<Rightarrow> world \<Rightarrow> string \<Rightarrow> event list" where
  "check_version_on con w qgis_path = snd (written con (check_version w qgis_path) ())"

text \<open>The body of the outer \<open>try\<close>: a refused line leaves it as an exception does.\<close>

definition try_check_on ::
  "console \<Rightarrow> world \<Rightarrow> string \<Rightarrow> (py_exception + bool) \<times> event list" where
  "try_check_on con w qgis_path =
     (case written con [Print (emoji_check @ '' QGIS found at: '' @ qgis_path),
                        Print ''Checking QGIS version and algorithms...''] () of
        (Inl e, t) \<Rightarrow> (Inl e, t)
      | (Inr u, t) \<Rightarrow>
          (let t0 = t @ check_version_on con w qgis_path @ [Run [qgis_path, ''list''] 60]
           in case subprocess_run w [qgis_path, ''list''] 60 of
                Inl e \<Rightarrow> (Inl e, t0)
              | Inr result \<Rightarrow>
                  if returncode result \<noteq> 0
                  then (case written con
                               [Print (emoji_cross @ '' QGIS command failed: '' @ stderr result),
                                Print (''Return code: '' @ str_int (returncode result))]
                               False of
                          (r, t') \<Rightarrow> (r, t0 @ t'))
                  else (case written con (report_algorithms qgis_path (stdout result)) True of
                          (r, t') \<Rightarrow> (r, t0 @ t'))))"

text \<open>
  The whole operation. The banner, the resolver and the advice are outside the \<open>try\<close>;
  an exception raised inside an \<open>except\<close> clause is not caught by a later clause.
\<close>

definition check_qgis_algorithms_on ::
  "console \<Rightarrow> world \<Rightarrow> (py_exception + bool) \<times> event list" where
  "check_qgis_algorithms_on con w =
     (case written con (system_information w) () of
        (Inl e, ts) \<Rightarrow> (Inl e, ts)
      | (Inr u, ts) \<Rightarrow>
          (case get_qgis_path_on con w of
             (Inl e, t1) \<Rightarrow> (Inl e, ts @ t1)
           | (Inr qgis_path, t1) \<Rightarrow>
               (case qgis_path of
                  None \<Rightarrow>
                    (case written con not_found_help False of (r, t) \<Rightarrow> (r, ts @ t1 @ t))
                | Some p \<Rightarrow>
                    if p = []
                    then (case written con not_found_help False of (r, t) \<Rightarrow> (r, ts @ t1 @ t))
                    else (case try_check_on con w p of
                            (Inr b, t2) \<Rightarrow> (Inr b, ts @ t1 @ t2)
                          | (Inl e, t2) \<Rightarrow>
                              (case check_handlers p e of
                                 (r, t3) \<Rightarrow>
                                   (case emit con t3 of
                                      (None, t3') \<Rightarrow> (r, ts @ t1 @ t2 @ t3')
                                    | (Some e', t3') \<Rightarrow> (Inl e', ts @ t1 @ t2 @ t3')))))))"

text \<open>
  \<open>get_qgis_info\<close> writes nothing itself: once the resolver has written its lines, the
  run is the one described above.
\<close>

definition get_qgis_info_on ::
  "console \<Rightarrow> world \<Rightarrow> (py_exception + pydict) \<times> event list" where
  "get_qgis_info_on con w =
     (case get_qgis_path_on con w of
        (Inl e, t) \<Rightarrow> (Inl e, t)
      | (Inr qgis_path, t) \<Rightarrow> get_qgis_info w)"

text \<open>A standard output that accepts every line, and one that only encodes ASCII.\<close>

definition accepting_console :: console where
  "accepting_console s = None"

definition ascii_console :: console where
  "ascii_console s =
     (if list_all (\<lambda>c. (of_char c :: nat) < 128) s then None
      else Some (OtherException ''UnicodeEncodeError'' ''ordinal not in range(128)''))"

text \<open>A machine whose \<open>QGIS_PATH\<close> names an existing path with a letter beyond ASCII.\<close>

definition accent_world :: world where
  "accent_world =
     example_world ''Linux'' (Some (''/opt/qgis-'' @ [CHR 0xE9] @ ''/qgis_process''))
       (\<lambda>p. True) no_process"

section \<open>Strings and the resolver: auxiliary facts\<close>

lemma str_in_sublist: "str_in k s = sublist k s"
  by (induction s) (simp_all add: sublist_Cons_right)

lemma str_in_iff: "str_in k s \<longleftrightarrow> (\<exists>ps ss. s = ps @ k @ ss)"
  by (simp add: str_in_sublist sublist_def)

lemma first_existing_find: "fst (first_existing w ps) = find (os_path_exists w) ps"
  by (induction ps) (auto split: prod.splits)

lemma first_existing_probes:
  "probes (snd (first_existing w ps)) =
     (case find (os_path_exists w) ps of
        None \<Rightarrow> ps
      | Some p \<Rightarrow> takeWhile (\<lambda>q. \<not> os_path_exists w q) ps @ [p])"
  by (induction ps) (auto simp: probes_def split: prod.splits option.splits)

lemma first_existing_invocations: "invocations (snd (first_existing w ps)) = []"
  by (induction ps) (auto simp: invocations_def split: prod.splits)

lemma platform_default_fst:
  "fst (platform_default w) =
     (case possible_paths (lower (platform_system w)) of
        None \<Rightarrow> None
      | Some paths \<Rightarrow> find (os_path_exists w) paths)"
proof (cases "possible_paths (lower (platform_system w))")
  case None
  then show ?thesis by (simp add: platform_default_def)
next
  case (Some paths)
  obtain r t where rt: "first_existing w paths = (r, t)" by (cases "first_existing w paths")
  have "r = find (os_path_exists w) paths"
    using first_existing_find [of w paths] rt by simp
  with Some rt show ?thesis
    by (cases "find (os_path_exists w) paths") (simp_all add: platform_default_def)
qed

lemma platform_default_probes:
  "probes (snd (platform_default w)) =
     (case possible_paths (lower (platform_system w)) of
        None \<Rightarrow> []
      | Some paths \<Rightarrow> probes (snd (first_existing w paths)))"
proof (cases "possible_paths (lower (platform_system w))")
  case None
  then show ?thesis by (simp add: platform_default_def probes_def)
next
  case (Some paths)
  obtain r t where rt: "first_existing w paths = (r, t)" by (cases "first_existing w paths")
  with Some show ?thesis
    by (cases r) (simp_all add: platform_default_def probes_def)
qed

lemma platform_default_invocations: "invocations (snd (platform_default w)) = []"
proof (cases "possible_paths (lower (platform_system w))")
  case None
  then show ?thesis by (simp add: platform_default_def invocations_def)
next
  case (Some paths)
  obtain r t where rt: "first_existing w paths = (r, t)" by (cases "first_existing w paths")
  have "invocations t = []"
    using first_existing_invocations [of w paths] rt by simp
  with Some rt show ?thesis
    by (cases r) (simp_all add: platform_default_def invocations_def)
qed

lemma get_qgis_path_invocations: "invocations (snd (get_qgis_path w)) = []"
proof -
  obtain r t where rt: "platform_default w = (r, t)" by (cases "platform_default w")
  have "invocations t = []"
    using platform_default_invocations [of w] rt by simp
  with rt show ?thesis
    by (auto simp: get_qgis_path_def invocations_def split: option.splits)
qed

lemma find_nonempty: "find (os_path_exists w) ps = Some p \<Longrightarrow> p \<noteq> []"
  by (auto simp: find_Some_iff os_path_exists_def)

lemma get_qgis_path_nonempty: "fst (get_qgis_path w) = Some p \<Longrightarrow> p \<noteq> []"
proof -
  assume a: "fst (get_qgis_path w) = Some p"
  obtain r t where rt: "platform_default w = (r, t)" by (cases "platform_default w")
  have r: "r = Some p \<Longrightarrow> p \<noteq> []"
    using platform_default_fst [of w] rt find_nonempty [of w _ p]
    by (auto split: option.splits)
  show ?thesis
    using a rt r
    by (auto simp: get_qgis_path_def os_path_exists_def split: option.splits if_splits)
qed

lemma possible_paths_Some:
  "system \<in> {''windows'', ''linux'', ''darwin''} \<Longrightarrow> \<exists>paths. possible_paths system = Some paths"
  by (auto simp: possible_paths_def)

lemma possible_paths_None:
  "system \<notin> {''windows'', ''linux'', ''darwin''} \<Longrightarrow> possible_paths system = None"
  by (auto simp: possible_paths_def)

lemma get_qgis_path_fallback:
  assumes "os_environ w ''QGIS_PATH'' = None \<or>
           (\<exists>p. os_environ w ''QGIS_PATH'' = Some p \<and> \<not> os_path_exists w p)"
  shows "fst (get_qgis_path w) = fst (platform_default w)"
    and "probes (snd (get_qgis_path w)) = env_probe w @ probes (snd (platform_default w))"
  using assms
  by (auto simp: get_qgis_path_def env_probe_def probes_def split: option.splits prod.splits)

section \<open>The resolver\<close>

text \<open>
  Claim C5. If the environment variable \<open>QGIS_PATH\<close> is set and the path it names
  exists, \<open>get_qgis_path\<close> returns that path at once: the only existence check made is
  the one for that path, whatever the platform is and whichever platform candidates
  exist.
\<close>

theorem qgis_path_override:
  assumes "os_environ w ''QGIS_PATH'' = Some p" and "os_path_exists w p"
  shows "get_qgis_path w =
           (Some p, [Exists p, Print (''Using QGIS from environment variable: '' @ p)])"
  using assms by (simp add: get_qgis_path_def os_path_exists_def)

theorem qgis_path_override_witness:
  "os_environ (example_world ''Linux'' (Some ''/opt/custom/qgis_process'') (\<lambda>p. True) no_process)
     ''QGIS_PATH'' = Some ''/opt/custom/qgis_process'' \<and>
   os_path_exists (example_world ''Linux'' (Some ''/opt/custom/qgis_process'') (\<lambda>p. True) no_process)
     ''/opt/custom/qgis_process'' \<and>
   os_path_exists (example_world ''Linux'' (Some ''/opt/custom/qgis_process'') (\<lambda>p. True) no_process)
     ''/usr/bin/qgis_process'' \<and>
   fst (get_qgis_path
          (example_world ''Linux'' (Some ''/opt/custom/qgis_process'') (\<lambda>p. True) no_process)) =
     Some ''/opt/custom/qgis_process''"
  using qgis_path_override
          [of "example_world ''Linux'' (Some ''/opt/custom/qgis_process'') (\<lambda>p. True) no_process"
              "''/opt/custom/qgis_process''"]
  by (simp add: example_world_def os_path_exists_def)

text \<open>
  Claim C6. If \<open>QGIS_PATH\<close> is unset, or set to a path that does not exist, then on a
  recognised platform (windows, linux, darwin) \<open>get_qgis_path\<close> walks the platform's
  candidate list in order: it returns the first candidate that exists, having checked
  the candidates before it and no candidate after it, or \<open>None\<close> when no candidate
  exists, having checked them all.
\<close>

theorem qgis_path_platform_fallback:
  assumes "os_environ w ''QGIS_PATH'' = None \<or>
           (\<exists>p. os_environ w ''QGIS_PATH'' = Some p \<and> \<not> os_path_exists w p)"
      and "lower (platform_system w) \<in> {''windows'', ''linux'', ''darwin''}"
  shows "\<exists>paths. possible_paths (lower (platform_system w)) = Some paths \<and>
           fst (get_qgis_path w) = find (os_path_exists w) paths \<and>
           (case fst (get_qgis_path w) of
              None \<Rightarrow>
                (\<forall>q \<in> set paths. \<not> os_path_exists w q) \<and>
                probes (snd (get_qgis_path w)) = env_probe w @ paths
            | Some q \<Rightarrow>
                (\<exists>i<length paths. q = paths ! i \<and> os_path_exists w q \<and>
                   (\<forall>j<i. \<not> os_path_exists w (paths ! j))) \<and>
                probes (snd (get_qgis_path w)) =
                  env_probe w @ takeWhile (\<lambda>p. \<not> os_path_exists w p) paths @ [q])"
proof -
  obtain paths where paths: "possible_paths (lower (platform_system w)) = Some paths"
    using possible_paths_Some [OF assms(2)] by blast
  have res: "fst (get_qgis_path w) = find (os_path_exists w) paths"
    using get_qgis_path_fallback(1) [OF assms(1)] paths by (simp add: platform_default_fst)
  have pr: "probes (snd (get_qgis_path w)) =
              env_probe w @
              (case find (os_path_exists w) paths of
                 None \<Rightarrow> paths
               | Some p \<Rightarrow> takeWhile (\<lambda>q. \<not> os_path_exists w q) paths @ [p])"
    using get_qgis_path_fallback(2) [OF assms(1)] paths
    by (simp add: platform_default_probes first_existing_probes)
  show ?thesis
  proof (cases "find (os_path_exists w) paths")
    case None
    then have "\<forall>q \<in> set paths. \<not> os_path_exists w q"
      by (simp add: find_None_iff)
    with None paths res pr show ?thesis by simp
  next
    case (Some q)
    then have "\<exists>i<length paths. q = paths ! i \<and> os_path_exists w q \<and>
                 (\<forall>j<i. \<not> os_path_exists w (paths ! j))"
      by (auto simp: find_Some_iff)
    with Some paths res pr show ?thesis by simp
  qed
qed

theorem qgis_path_platform_fallback_witness:
  "fst (get_qgis_path fallback_world) = Some ''/opt/qgis/bin/qgis_process'' \<and>
   probes (snd (get_qgis_path fallback_world)) =
     [''/missing/qgis_process'', ''/usr/bin/qgis_process'', ''/usr/local/bin/qgis_process'',
      ''/opt/qgis/bin/qgis_process'']"
proof -
  have env: "os_environ fallback_world ''QGIS_PATH'' = Some ''/missing/qgis_process''"
    by (simp add: fallback_world_def example_world_def)
  have ex: "\<And>q. os_path_exists fallback_world q =
                  (q \<noteq> [] \<and> (q = ''/opt/qgis/bin/qgis_process'' \<or> q = ''/usr/bin/qgis''))"
    by (simp add: fallback_world_def example_world_def os_path_exists_def)
  have h1: "os_environ fallback_world ''QGIS_PATH'' = None \<or>
            (\<exists>p. os_environ fallback_world ''QGIS_PATH'' = Some p \<and>
                 \<not> os_path_exists fallback_world p)"
    by (simp add: env ex)
  have sys: "lower (platform_system fallback_world) = ''linux''"
    by (simp add: fallback_world_def example_world_def lower_def lower_char_def)
  have h2: "lower (platform_system fallback_world) \<in> {''windows'', ''linux'', ''darwin''}"
    by (simp add: sys)
  obtain paths where
    p: "possible_paths (lower (platform_system fallback_world)) = Some paths" and
    r: "fst (get_qgis_path fallback_world) = find (os_path_exists fallback_world) paths" and
    c: "case fst (get_qgis_path fallback_world) of
          None \<Rightarrow>
            (\<forall>q \<in> set paths. \<not> os_path_exists fallback_world q) \<and>
            probes (snd (get_qgis_path fallback_world)) = env_probe fallback_world @ paths
        | Some q \<Rightarrow>
            (\<exists>i<length paths. q = paths ! i \<and> os_path_exists fallback_world q \<and>
               (\<forall>j<i. \<not> os_path_exists fallback_world (paths ! j))) \<and>
            probes (snd (get_qgis_path fallback_world)) =
              env_probe fallback_world @
              takeWhile (\<lambda>p. \<not> os_path_exists fallback_world p) paths @ [q]"
    using qgis_path_platform_fallback [OF h1 h2] by blast
  have paths: "paths = [''/usr/bin/qgis_process'', ''/usr/local/bin/qgis_process'',
                        ''/opt/qgis/bin/qgis_process'', ''/usr/bin/qgis-lts'', ''/usr/bin/qgis'']"
    using p by (simp add: sys possible_paths_def)
  have res: "fst (get_qgis_path fallback_world) = Some ''/opt/qgis/bin/qgis_process''"
    using r by (simp add: paths ex)
  have "probes (snd (get_qgis_path fallback_world)) =
          env_probe fallback_world @
          takeWhile (\<lambda>p. \<not> os_path_exists fallback_world p) paths @
          [''/opt/qgis/bin/qgis_process'']"
    using c by (simp add: res)
  then have "probes (snd (get_qgis_path fallback_world)) =
     [''/missing/qgis_process'', ''/usr/bin/qgis_process'', ''/usr/local/bin/qgis_process'',
      ''/opt/qgis/bin/qgis_process'']"
    by (simp add: paths ex env_probe_def env)
  with res show ?thesis by simp
qed

text \<open>
  Claim C7. On a platform that is none of windows, linux and darwin, when \<open>QGIS_PATH\<close>
  does not name an existing path, \<open>get_qgis_path\<close> returns \<open>None\<close>; no candidate path is
  checked (the only existence check is the one for the value of \<open>QGIS_PATH\<close>, if it has
  one), and the result is the same in every file system that agrees on that value.
\<close>

theorem unsupported_platform:
  assumes "lower (platform_system w) \<notin> {''windows'', ''linux'', ''darwin''}"
      and "\<not> (\<exists>p. os_environ w ''QGIS_PATH'' = Some p \<and> os_path_exists w p)"
  shows "fst (get_qgis_path w) = None \<and>
         probes (snd (get_qgis_path w)) = env_probe w \<and>
         (\<forall>ex. (\<forall>p. os_environ w ''QGIS_PATH'' = Some p \<longrightarrow> ex p = path_exists w p) \<longrightarrow>
               get_qgis_path (w\<lparr>path_exists := ex\<rparr>) = get_qgis_path w)"
proof -
  have none: "possible_paths (lower (platform_system w)) = None"
    using possible_paths_None [OF assms(1)] .
  have pd: "\<And>ex. platform_default (w\<lparr>path_exists := ex\<rparr>) =
                   (None, [Print (''Unsupported platform: '' @ lower (platform_system w))])"
    using none by (simp add: platform_default_def)
  have pd0: "platform_default w =
               (None, [Print (''Unsupported platform: '' @ lower (platform_system w))])"
    using none by (simp add: platform_default_def)
  show ?thesis
    using assms(2) pd pd0
    by (auto simp: get_qgis_path_def env_probe_def probes_def os_path_exists_def
             split: option.splits)
qed

theorem unsupported_platform_witness:
  "get_qgis_path (example_world ''FreeBSD'' (Some ''/missing/qgis_process'') (\<lambda>p. False) no_process) =
     (None, [Exists ''/missing/qgis_process'', Print ''Unsupported platform: freebsd'']) \<and>
   get_qgis_path
     (example_world ''FreeBSD'' (Some ''/missing/qgis_process'') (\<lambda>p. False) no_process
        \<lparr>path_exists := (\<lambda>p. p = ''/usr/bin/qgis_process'')\<rparr>) =
   get_qgis_path (example_world ''FreeBSD'' (Some ''/missing/qgis_process'') (\<lambda>p. False) no_process)"
  using unsupported_platform
          [of "example_world ''FreeBSD'' (Some ''/missing/qgis_process'') (\<lambda>p. False) no_process"]
  by (simp add: example_world_def os_path_exists_def lower_def lower_char_def
        get_qgis_path_def platform_default_def possible_paths_def)

section \<open>The records and the invocations\<close>

lemma linux_world_path:
  "get_qgis_path (linux_world table) =
     (Some ''/usr/bin/qgis_process'',
      [Exists ''/usr/bin/qgis_process'', Print ''Found QGIS at: /usr/bin/qgis_process''])"
  by (simp add: linux_world_def example_world_def get_qgis_path_def platform_default_def
        lower_def lower_char_def possible_paths_def os_path_exists_def)

lemma bare_world_path: "fst (get_qgis_path bare_world) = None"
  by (simp add: bare_world_def example_world_def get_qgis_path_def platform_default_def
        lower_def lower_char_def possible_paths_def os_path_exists_def)

text \<open>
  Claim C9. Whenever the resolver returns \<open>None\<close>, \<open>get_qgis_info\<close> returns a record whose
  \<open>qgis_found\<close> is false and whose \<open>manual_method_available\<close> is true, with none of the
  fields that need an invocation (\<open>qgis_working\<close>, \<open>total_algorithms\<close>, \<open>tile_algorithms\<close>,
  \<open>qgis_version\<close>, and \<open>error\<close>): its keys are the four initial ones, and no subprocess
  was started.
\<close>

theorem info_when_absent:
  assumes "fst (get_qgis_path w) = None"
  shows "\<exists>d. fst (get_qgis_info w) = Inr d \<and>
           d ''qgis_found'' = Some (PyBool False) \<and>
           d ''manual_method_available'' = Some (PyBool True) \<and>
           d ''qgis_working'' = None \<and>
           d ''total_algorithms'' = None \<and>
           d ''tile_algorithms'' = None \<and>
           d ''qgis_version'' = None \<and>
           d ''error'' = None \<and>
           dom d = {''qgis_found'', ''qgis_path'', ''platform'', ''manual_method_available''} \<and>
           invocations (snd (get_qgis_info w)) = []"
proof -
  obtain t where t: "get_qgis_path w = (None, t)"
    using assms by (cases "get_qgis_path w") simp
  have inv: "invocations t = []"
    using get_qgis_path_invocations [of w] t by simp
  have r: "get_qgis_info w = (Inr (initial_info w None), t)"
    using t by (simp add: get_qgis_info_def)
  show ?thesis
    unfolding r using inv by (auto simp: initial_info_def)
qed

theorem info_when_absent_witness:
  "fst (get_qgis_path bare_world) = None \<and>
   (\<exists>d. fst (get_qgis_info bare_world) = Inr d \<and>
        d ''qgis_found'' = Some (PyBool False) \<and>
        d ''manual_method_available'' = Some (PyBool True) \<and>
        d ''qgis_working'' = None)"
  using info_when_absent [OF bare_world_path] bare_world_path by blast

lemma try_check_fst:
  "fst (try_check w p) =
     (case subprocess_run w [p, ''list''] 60 of
        Inl e \<Rightarrow> Inl e
      | Inr result \<Rightarrow> Inr (returncode result = 0))"
  by (simp add: try_check_def Let_def split: sum.splits)

lemma check_handlers_fst: "fst (check_handlers p e) = Inr False"
  by (cases e) simp_all

lemma check_fst:
  "fst (check_qgis_algorithms w) =
     Inr (case fst (get_qgis_path w) of
            None \<Rightarrow> False
          | Some p \<Rightarrow> succeeded (subprocess_run w [p, ''list''] 60))"
proof -
  obtain r t1 where rt: "get_qgis_path w = (r, t1)" by (cases "get_qgis_path w")
  show ?thesis
  proof (cases r)
    case None
    with rt show ?thesis by (simp add: check_qgis_algorithms_def)
  next
    case (Some p)
    with rt have ne: "p \<noteq> []" using get_qgis_path_nonempty [of w p] by simp
    obtain x t2 where x: "try_check w p = (x, t2)" by (cases "try_check w p")
    have fx: "x = (case subprocess_run w [p, ''list''] 60 of
                     Inl e \<Rightarrow> Inl e
                   | Inr result \<Rightarrow> Inr (returncode result = 0))"
      using try_check_fst [of w p] x by simp
    show ?thesis
    proof (cases "subprocess_run w [p, ''list''] 60")
      case (Inl e)
      obtain y t3 where y: "check_handlers p e = (y, t3)" by (cases "check_handlers p e")
      have "y = Inr False" using check_handlers_fst [of p e] y by simp
      with Inl fx x y rt Some ne show ?thesis
        by (simp add: check_qgis_algorithms_def succeeded_def)
    next
      case (Inr result)
      with fx x rt Some ne show ?thesis
        by (simp add: check_qgis_algorithms_def succeeded_def)
    qed
  qed
qed

lemma try_info_cases:
  "try_info w p info =
     (case subprocess_run w [p, ''list''] 30 of
        Inl e \<Rightarrow> (Inl e, [Run [p, ''list''] 30])
      | Inr result \<Rightarrow>
          if returncode result = 0
          then (Inr ((info(''total_algorithms'' \<mapsto> PyInt (int (length (output_lines (stdout result)))),
                          ''tile_algorithms'' \<mapsto>
                             PyList (take 5 (filter (any_keyword info_tile_keywords)
                                                (output_lines (stdout result)))),
                          ''qgis_working'' \<mapsto> PyBool True))
                       (''qgis_version'' \<mapsto>
                          PyStr (case subprocess_run w [p, ''--version''] 10 of
                                   Inl e \<Rightarrow> ''Available''
                                 | Inr version_result \<Rightarrow>
                                     if returncode version_result = 0
                                     then strip (stdout version_result) else ''Available''))),
                [Run [p, ''list''] 30, Run [p, ''--version''] 10])
          else (Inr (info(''qgis_working'' \<mapsto> PyBool False,
                          ''error'' \<mapsto> PyStr (if stderr result \<noteq> [] then stderr result
                                                 else ''QGIS command failed''))),
                [Run [p, ''list''] 30]))"
  by (simp add: try_info_def Let_def split: sum.splits)

lemma info_cases:
  assumes "get_qgis_path w = (Some p, t1)"
  shows "get_qgis_info w =
           (case try_info w p (initial_info w (Some p)) of
              (Inr info', t2) \<Rightarrow> (Inr info', t1 @ t2)
            | (Inl e, t2) \<Rightarrow> (Inr (info_handlers (initial_info w (Some p)) e), t1 @ t2))"
proof -
  have "p \<noteq> []" using get_qgis_path_nonempty [of w p] assms by simp
  with assms show ?thesis by (simp add: get_qgis_info_def Let_def)
qed

lemma info_handlers_fields:
  "info_handlers info e ''qgis_working'' = Some (PyBool False)"
  "\<exists>msg. info_handlers info e ''error'' = Some (PyStr msg)"
  "info_handlers info e ''qgis_found'' = info ''qgis_found''"
  by (cases e; simp)+

lemma probe_results:
  "(\<exists>b. fst (check_qgis_algorithms w) = Inr b \<and>
        (b \<longleftrightarrow> (\<exists>p. fst (get_qgis_path w) = Some p \<and>
                      succeeded (subprocess_run w [p, ''list''] 60)))) \<and>
   (\<exists>d. fst (get_qgis_info w) = Inr d \<and>
        d ''qgis_found'' = Some (PyBool (fst (get_qgis_path w) \<noteq> None)) \<and>
        (\<forall>p. fst (get_qgis_path w) = Some p \<longrightarrow>
             d ''qgis_working'' = Some (PyBool (succeeded (subprocess_run w [p, ''list''] 30))) \<and>
             (\<not> succeeded (subprocess_run w [p, ''list''] 30) \<longrightarrow>
                (\<exists>msg. d ''error'' = Some (PyStr msg)))))"
proof
  show "\<exists>b. fst (check_qgis_algorithms w) = Inr b \<and>
        (b \<longleftrightarrow> (\<exists>p. fst (get_qgis_path w) = Some p \<and>
                      succeeded (subprocess_run w [p, ''list''] 60)))"
    by (cases "fst (get_qgis_path w)") (auto simp: check_fst)
next
  obtain r t1 where rt: "get_qgis_path w = (r, t1)" by (cases "get_qgis_path w")
  show "\<exists>d. fst (get_qgis_info w) = Inr d \<and>
        d ''qgis_found'' = Some (PyBool (fst (get_qgis_path w) \<noteq> None)) \<and>
        (\<forall>p. fst (get_qgis_path w) = Some p \<longrightarrow>
             d ''qgis_working'' = Some (PyBool (succeeded (subprocess_run w [p, ''list''] 30))) \<and>
             (\<not> succeeded (subprocess_run w [p, ''list''] 30) \<longrightarrow>
                (\<exists>msg. d ''error'' = Some (PyStr msg))))"
  proof (cases r)
    case None
    with rt show ?thesis by (simp add: get_qgis_info_def initial_info_def)
  next
    case (Some p)
    note ic = info_cases [OF rt [unfolded Some]]
    show ?thesis
    proof (cases "subprocess_run w [p, ''list''] 30")
      case (Inl e)
      with ic rt Some info_handlers_fields [of "initial_info w (Some p)" e] show ?thesis
        by (simp add: try_info_cases succeeded_def initial_info_def)
    next
      case (Inr result)
      with ic rt Some show ?thesis
        by (simp add: try_info_cases succeeded_def initial_info_def)
    qed
  qed
qed

lemma invocations_simps:
  "invocations [] = []"
  "invocations (Print s # t) = invocations t"
  "invocations (Exists q # t) = invocations t"
  "invocations (Run argv secs # t) = (argv, secs) # invocations t"
  "invocations (a @ b) = invocations a @ invocations b"
  by (simp_all add: invocations_def)

lemma invocations_prints: "invocations (map (\<lambda>x. Print (f x)) xs) = []"
  by (induction xs) (simp_all add: invocations_simps)

lemma invocations_numbered: "invocations (numbered xs) = []"
  by (simp add: numbered_def case_prod_unfold invocations_prints)

lemma invocations_system_information: "invocations (system_information w) = []"
  by (simp add: system_information_def invocations_simps)

lemma invocations_not_found_help: "invocations not_found_help = []"
  by (simp add: not_found_help_def invocations_simps)

lemma invocations_report: "invocations (report_algorithms p out) = []"
  by (simp add: report_algorithms_def report_sample_def report_tile_def
        report_categories_def report_summary_def Let_def case_prod_unfold
        invocations_simps invocations_numbered invocations_prints)

lemma invocations_check_version:
  "invocations (check_version w p) = [([p, ''--version''], 30)]"
  by (simp add: check_version_def invocations_simps split: sum.splits)

lemma invocations_try_check:
  "invocations (snd (try_check w p)) = [([p, ''--version''], 30), ([p, ''list''], 60)]"
  by (simp add: try_check_def Let_def invocations_simps invocations_check_version
        invocations_report split: sum.splits)

lemma invocations_check_handlers: "invocations (snd (check_handlers p e)) = []"
  by (cases e) (simp_all add: invocations_simps timeout_message_def generic_message_def)

lemma check_invocations:
  "invocations (snd (check_qgis_algorithms w)) =
     (case fst (get_qgis_path w) of
        None \<Rightarrow> []
      | Some p \<Rightarrow> [([p, ''--version''], 30), ([p, ''list''], 60)])"
proof -
  obtain r t1 where rt: "get_qgis_path w = (r, t1)" by (cases "get_qgis_path w")
  have t1: "invocations t1 = []" using get_qgis_path_invocations [of w] rt by simp
  show ?thesis
  proof (cases r)
    case None
    with rt t1 show ?thesis
      by (simp add: check_qgis_algorithms_def invocations_simps
            invocations_system_information invocations_not_found_help)
  next
    case (Some p)
    with rt have ne: "p \<noteq> []" using get_qgis_path_nonempty [of w p] by simp
    obtain x t2 where x: "try_check w p = (x, t2)" by (cases "try_check w p")
    have t2: "invocations t2 = [([p, ''--version''], 30), ([p, ''list''], 60)]"
      using invocations_try_check [of w p] x by simp
    show ?thesis
    proof (cases x)
      case (Inl e)
      obtain y t3 where y: "check_handlers p e = (y, t3)" by (cases "check_handlers p e")
      have "invocations t3 = []" using invocations_check_handlers [of p e] y by simp
      with Inl x y rt Some ne t1 t2 show ?thesis
        by (simp add: check_qgis_algorithms_def invocations_simps
              invocations_system_information)
    next
      case (Inr b)
      with x rt Some ne t1 t2 show ?thesis
        by (simp add: check_qgis_algorithms_def invocations_simps
              invocations_system_information)
    qed
  qed
qed

lemma info_invocations:
  "invocations (snd (get_qgis_info w)) =
     (case fst (get_qgis_path w) of
        None \<Rightarrow> []
      | Some p \<Rightarrow>
          if succeeded (subprocess_run w [p, ''list''] 30)
          then [([p, ''list''], 30), ([p, ''--version''], 10)]
          else [([p, ''list''], 30)])"
proof -
  obtain r t1 where rt: "get_qgis_path w = (r, t1)" by (cases "get_qgis_path w")
  have t1: "invocations t1 = []" using get_qgis_path_invocations [of w] rt by simp
  show ?thesis
  proof (cases r)
    case None
    with rt t1 show ?thesis by (simp add: get_qgis_info_def)
  next
    case (Some p)
    note ic = info_cases [OF rt [unfolded Some]]
    show ?thesis
    proof (cases "subprocess_run w [p, ''list''] 30")
      case (Inl e)
      with ic rt Some t1 show ?thesis
        by (simp add: try_info_cases succeeded_def invocations_simps)
    next
      case (Inr result)
      with ic rt Some t1 show ?thesis
        by (simp add: try_info_cases succeeded_def invocations_simps)
    qed
  qed
qed

lemma test_invocations:
  "invocations (snd (test_qgis_algorithm w name)) =
     (case fst (get_qgis_path w) of
        None \<Rightarrow> []
      | Some p \<Rightarrow> [([p, ''help'', name], 30)])"
proof -
  obtain r t1 where rt: "get_qgis_path w = (r, t1)" by (cases "get_qgis_path w")
  have t1: "invocations t1 = []" using get_qgis_path_invocations [of w] rt by simp
  show ?thesis
  proof (cases r)
    case None
    with rt t1 show ?thesis by (simp add: test_qgis_algorithm_def)
  next
    case (Some p)
    with rt have ne: "p \<noteq> []" using get_qgis_path_nonempty [of w p] by simp
    with rt Some t1 show ?thesis
      by (simp add: test_qgis_algorithm_def invocations_simps split: sum.splits)
  qed
qed

lemma working_world_path: "fst (get_qgis_path working_world) = Some ''/usr/bin/qgis_process''"
  by (simp add: working_world_def linux_world_path)

lemma working_world_run:
  "subprocess_run working_world [''/usr/bin/qgis_process'', ''--version''] secs =
     Inr (CompletedProcess 0 ''QGIS 3.34.4\<newline>'' [])"
  "subprocess_run working_world [''/usr/bin/qgis_process'', ''list''] secs =
     Inr (CompletedProcess 0 sample_listing [])"
  "subprocess_run working_world [''/usr/bin/qgis_process'', ''help'', ''native:buffer''] secs =
     Inr (CompletedProcess 0 (replicate 1500 CHR ''x'') [])"
  "subprocess_run working_world [''/usr/bin/qgis_process'', ''help'', ''native:nothing''] secs =
     Inr (CompletedProcess 1 [] ''unknown command'')"
  by (simp_all add: working_world_def linux_world_def example_world_def scripted_def)

text \<open>
  Claim C2, as amended. The invocations of each operation, with their timeouts in
  seconds: \<open>check_qgis_algorithms\<close> runs \<open>--version\<close> with 30 and \<open>list\<close> with 60;
  \<open>get_qgis_info\<close> runs \<open>list\<close> with 30 and, when that succeeded, \<open>--version\<close> with 10;
  \<open>test_qgis_algorithm\<close> runs \<open>help name\<close> with 30. No operation starts a subprocess
  when no path was resolved.
\<close>

theorem invocation_timeouts:
  "invocations (snd (check_qgis_algorithms w)) =
     (case fst (get_qgis_path w) of
        None \<Rightarrow> []
      | Some p \<Rightarrow> [([p, ''--version''], 30), ([p, ''list''], 60)]) \<and>
   invocations (snd (get_qgis_info w)) =
     (case fst (get_qgis_path w) of
        None \<Rightarrow> []
      | Some p \<Rightarrow>
          if succeeded (subprocess_run w [p, ''list''] 30)
          then [([p, ''list''], 30), ([p, ''--version''], 10)]
          else [([p, ''list''], 30)]) \<and>
   invocations (snd (test_qgis_algorithm w name)) =
     (case fst (get_qgis_path w) of
        None \<Rightarrow> []
      | Some p \<Rightarrow> [([p, ''help'', name], 30)])"
  by (simp only: check_invocations info_invocations test_invocations)

theorem invocation_timeouts_witness:
  "invocations (snd (check_qgis_algorithms working_world)) =
     [([''/usr/bin/qgis_process'', ''--version''], 30), ([''/usr/bin/qgis_process'', ''list''], 60)] \<and>
   invocations (snd (test_qgis_algorithm working_world ''native:buffer'')) =
     [([''/usr/bin/qgis_process'', ''help'', ''native:buffer''], 30)]"
  using invocation_timeouts [of working_world "''native:buffer''"]
  by (simp add: working_world_path)

text \<open>
  Claim C2 as stated fails in \<open>get_qgis_info\<close>: on a working installation its listing
  has 30 seconds, not 60, and its version check 10, not 30.
\<close>

theorem invocation_timeouts_counterexample:
  "invocations (snd (get_qgis_info working_world)) =
     [([''/usr/bin/qgis_process'', ''list''], 30), ([''/usr/bin/qgis_process'', ''--version''], 10)]"
  by (simp add: info_invocations working_world_path working_world_run succeeded_def)

lemma test_cases:
  assumes "get_qgis_path w = (Some p, t1)"
  shows "fst (test_qgis_algorithm w name) =
           Inr (case subprocess_run w [p, ''help'', name] 30 of
                  Inr result \<Rightarrow>
                    if returncode result = 0
                    then [''algorithm'' \<mapsto> PyStr name,
                          ''available'' \<mapsto> PyBool True,
                          ''help'' \<mapsto> PyStr (take 1000 (stdout result)),
                          ''qgis_path'' \<mapsto> PyStr p]
                    else [''algorithm'' \<mapsto> PyStr name,
                          ''available'' \<mapsto> PyBool False,
                          ''error'' \<mapsto> PyStr (stderr result),
                          ''qgis_path'' \<mapsto> PyStr p]
                | Inl e \<Rightarrow>
                    [''algorithm'' \<mapsto> PyStr name,
                     ''available'' \<mapsto> PyBool False,
                     ''error'' \<mapsto> PyStr (str_exc e),
                     ''qgis_path'' \<mapsto> PyStr p])"
proof -
  have "p \<noteq> []" using get_qgis_path_nonempty [of w p] assms by simp
  with assms show ?thesis
    by (simp add: test_qgis_algorithm_def split: sum.splits)
qed

text \<open>
  Claim C3, as amended. When no path is resolved, \<open>test_qgis_algorithm\<close> returns the
  record with the single field \<open>error\<close>, "QGIS not found". When a path is resolved, for
  every algorithm name it returns a record with the name, with \<open>available\<close> true exactly
  when the \<open>help name\<close> invocation exited with code zero, and with either the first 1000
  characters of the help text (on success) or the error text (the standard error of a
  failed invocation, the message of a raised exception).
\<close>

theorem algorithm_lookup:
  "(fst (get_qgis_path w) = None \<longrightarrow>
      fst (test_qgis_algorithm w name) = Inr [''error'' \<mapsto> PyStr ''QGIS not found'']) \<and>
   (\<forall>p. fst (get_qgis_path w) = Some p \<longrightarrow>
      (\<exists>d. fst (test_qgis_algorithm w name) = Inr d \<and>
           d ''algorithm'' = Some (PyStr name) \<and>
           d ''available'' = Some (PyBool (succeeded (subprocess_run w [p, ''help'', name] 30))) \<and>
           (case subprocess_run w [p, ''help'', name] 30 of
              Inr result \<Rightarrow>
                if returncode result = 0
                then d ''help'' = Some (PyStr (take 1000 (stdout result))) \<and>
                     length (take 1000 (stdout result)) \<le> 1000 \<and>
                     d ''error'' = None
                else d ''error'' = Some (PyStr (stderr result)) \<and> d ''help'' = None
            | Inl e \<Rightarrow> d ''error'' = Some (PyStr (str_exc e)) \<and> d ''help'' = None)))"
proof (intro conjI impI allI)
  assume "fst (get_qgis_path w) = None"
  then obtain t where "get_qgis_path w = (None, t)" by (cases "get_qgis_path w") simp
  then show "fst (test_qgis_algorithm w name) = Inr [''error'' \<mapsto> PyStr ''QGIS not found'']"
    by (simp add: test_qgis_algorithm_def)
next
  fix p
  assume "fst (get_qgis_path w) = Some p"
  then obtain t where t: "get_qgis_path w = (Some p, t)" by (cases "get_qgis_path w") simp
  show "\<exists>d. fst (test_qgis_algorithm w name) = Inr d \<and>
           d ''algorithm'' = Some (PyStr name) \<and>
           d ''available'' = Some (PyBool (succeeded (subprocess_run w [p, ''help'', name] 30))) \<and>
           (case subprocess_run w [p, ''help'', name] 30 of
              Inr result \<Rightarrow>
                if returncode result = 0
                then d ''help'' = Some (PyStr (take 1000 (stdout result))) \<and>
                     length (take 1000 (stdout result)) \<le> 1000 \<and>
                     d ''error'' = None
                else d ''error'' = Some (PyStr (stderr result)) \<and> d ''help'' = None
            | Inl e \<Rightarrow> d ''error'' = Some (PyStr (str_exc e)) \<and> d ''help'' = None)"
    unfolding test_cases [OF t]
    by (cases "subprocess_run w [p, ''help'', name] 30") (simp_all add: succeeded_def)
qed

theorem algorithm_lookup_witness:
  "\<exists>d. fst (test_qgis_algorithm working_world ''native:buffer'') = Inr d \<and>
       d ''algorithm'' = Some (PyStr ''native:buffer'') \<and>
       d ''available'' = Some (PyBool True) \<and>
       d ''help'' = Some (PyStr (replicate 1000 CHR ''x'')) \<and>
       d ''error'' = None"
  using algorithm_lookup [of working_world "''native:buffer''"]
  by (simp add: working_world_path working_world_run succeeded_def)

text \<open>
  Claim C3 as stated fails on a machine without the binary: the record returned has
  neither the algorithm name nor the availability flag.
\<close>

theorem algorithm_lookup_counterexample:
  "\<not> raised (test_qgis_algorithm bare_world ''native:buffer'') \<and>
   field (test_qgis_algorithm bare_world ''native:buffer'') ''algorithm'' = None \<and>
   field (test_qgis_algorithm bare_world ''native:buffer'') ''available'' = None \<and>
   field (test_qgis_algorithm bare_world ''native:buffer'') ''error'' =
     Some (PyStr ''QGIS not found'')"
proof -
  obtain t where "get_qgis_path bare_world = (None, t)"
    using bare_world_path by (cases "get_qgis_path bare_world") simp
  then show ?thesis
    by (simp add: test_qgis_algorithm_def field_def raised_def)
qed

section \<open>The classifier and the report\<close>

lemma str_in_lower: "str_in k (lower line) \<longleftrightarrow> contains_ci line k"
proof
  assume "str_in k (lower line)"
  then obtain ps ss where "map lower_char line = ps @ k @ ss"
    by (auto simp: str_in_iff lower_def)
  then obtain us vs where uv: "line = us @ vs" "k @ ss = map lower_char vs"
    by (auto simp: map_eq_append_conv)
  from uv(2) obtain s ss' where "vs = s @ ss'" "k = map lower_char s"
    by (auto simp: append_eq_map_conv)
  with uv(1) show "contains_ci line k"
    by (auto simp: contains_ci_def lower_def)
next
  assume "contains_ci line k"
  then obtain ps s ss where "line = ps @ s @ ss" "lower s = k"
    by (auto simp: contains_ci_def)
  then have "lower line = lower ps @ k @ lower ss"
    by (auto simp: lower_def)
  then show "str_in k (lower line)"
    unfolding str_in_iff by blast
qed

lemma any_keyword_iff: "any_keyword kws line \<longleftrightarrow> (\<exists>k \<in> set kws. contains_ci line k)"
  by (simp add: any_keyword_def list_ex_iff str_in_lower)

lemma sample_lines:
  "output_lines sample_listing =
     [''buffer'', ''qtiles_generate'', ''raster_calc'', ''dissolve'', ''xyz_export'']"
  by (simp add: output_lines_def sample_listing_def strip_def isspace_def)

lemma sample_tiles:
  "tile_algorithms_of [''buffer'', ''qtiles_generate'', ''raster_calc'', ''dissolve'', ''xyz_export''] =
     [''qtiles_generate'', ''raster_calc'', ''xyz_export'']"
  by (simp add: tile_algorithms_of_def tile_raster_keywords_def any_keyword_def lower_def
        lower_char_def)

lemma check_success:
  assumes "get_qgis_path w = (Some p, t1)"
      and "subprocess_run w [p, ''list''] 60 = Inr result"
      and "returncode result = 0"
  shows "check_qgis_algorithms w =
           (Inr True,
            system_information w @ t1 @
            [Print (emoji_check @ '' QGIS found at: '' @ p),
             Print ''Checking QGIS version and algorithms...''] @
            check_version w p @ [Run [p, ''list''] 60] @
            report_algorithms p (stdout result))"
proof -
  have "p \<noteq> []" using get_qgis_path_nonempty [of w p] assms(1) by simp
  with assms show ?thesis
    by (simp add: check_qgis_algorithms_def try_check_def Let_def)
qed

lemma check_raised:
  assumes "get_qgis_path w = (Some p, t1)"
      and "subprocess_run w [p, ''list''] 60 = Inl e"
  shows "check_qgis_algorithms w =
           (fst (check_handlers p e),
            system_information w @ t1 @
            [Print (emoji_check @ '' QGIS found at: '' @ p),
             Print ''Checking QGIS version and algorithms...''] @
            check_version w p @ [Run [p, ''list''] 60] @
            snd (check_handlers p e))"
proof -
  have "p \<noteq> []" using get_qgis_path_nonempty [of w p] assms(1) by simp
  with assms show ?thesis
    by (cases "check_handlers p e") (simp add: check_qgis_algorithms_def try_check_def Let_def)
qed

lemma category_count_length:
  "category_count kws lines = length (filter (any_keyword kws) lines)"
  by (induction lines) (simp_all add: category_count_def)

lemma report_totals:
  "Print (''   Total algorithms: '' @ str_nat (length (output_lines out)))
     \<in> set (report_algorithms p out)"
  "Print (''   Tile-related: '' @ str_nat (length (tile_algorithms_of (output_lines out))))
     \<in> set (report_algorithms p out)"
  by (simp_all add: report_algorithms_def report_summary_def Let_def)

lemma report_tiles:
  "set (numbered (take 15 (tile_algorithms_of (output_lines out))))
     \<subseteq> set (report_algorithms p out)"
proof -
  have "set (numbered (take 15 ts)) \<subseteq> set (report_tile ts)" for ts
    by (cases "ts = []") (auto simp: report_tile_def numbered_def)
  then show ?thesis
    by (auto simp: report_algorithms_def Let_def)
qed

lemma report_category:
  "(c, kws) \<in> set categories \<Longrightarrow>
   Print (category_line c (category_count kws (output_lines out)))
     \<in> set (report_algorithms p out)"
  by (force simp: report_algorithms_def report_categories_def Let_def)

lemma str_nat_digit: "n < 10 \<Longrightarrow> str_nat n = [digit n]"
  by (simp add: str_nat.simps)

lemma info_success:
  assumes "get_qgis_path w = (Some p, t1)"
      and "subprocess_run w [p, ''list''] 30 = Inr result"
      and "returncode result = 0"
  shows "\<exists>d. fst (get_qgis_info w) = Inr d \<and>
           d ''total_algorithms'' = Some (PyInt (int (length (output_lines (stdout result))))) \<and>
           d ''tile_algorithms'' =
             Some (PyList (take 5 (filter (any_keyword info_tile_keywords)
                                      (output_lines (stdout result)))))"
  using assms by (simp add: info_cases [OF assms(1)] try_info_cases)

text \<open>
  Claim C1, as amended. In \<open>check_qgis_algorithms\<close> the tile-related filter returns, in
  input order, exactly the lines that case-insensitively contain one of tile, qtiles,
  xyz, tms, raster; on the sample lines it yields qtiles_generate, raster_calc and
  xyz_export, and the sample listing has five lines. After a successful listing the
  operation prints the first fifteen of the filtered lines, the total and the number of
  filtered lines. In \<open>get_qgis_info\<close> the record holds the number of lines and, as
  \<open>tile_algorithms\<close>, the first five of the lines that case-insensitively contain one of
  tile, qtiles, xyz, tms.
\<close>

theorem tile_filter:
  "tile_algorithms_of lines =
     filter (\<lambda>line. \<exists>k \<in> {''tile'', ''qtiles'', ''xyz'', ''tms'', ''raster''}. contains_ci line k)
       lines \<and>
   tile_algorithms_of
     [''buffer'', ''qtiles_generate'', ''raster_calc'', ''dissolve'', ''xyz_export''] =
     [''qtiles_generate'', ''raster_calc'', ''xyz_export''] \<and>
   output_lines sample_listing =
     [''buffer'', ''qtiles_generate'', ''raster_calc'', ''dissolve'', ''xyz_export''] \<and>
   (\<forall>p result.
      fst (get_qgis_path w) = Some p \<and>
      subprocess_run w [p, ''list''] 60 = Inr result \<and> returncode result = 0 \<longrightarrow>
      set (numbered (take 15 (tile_algorithms_of (output_lines (stdout result)))))
        \<subseteq> set (snd (check_qgis_algorithms w)) \<and>
      Print (''   Total algorithms: '' @ str_nat (length (output_lines (stdout result))))
        \<in> set (snd (check_qgis_algorithms w)) \<and>
      Print (''   Tile-related: '' @
             str_nat (length (tile_algorithms_of (output_lines (stdout result)))))
        \<in> set (snd (check_qgis_algorithms w))) \<and>
   (\<forall>p result.
      fst (get_qgis_path w) = Some p \<and>
      subprocess_run w [p, ''list''] 30 = Inr result \<and> returncode result = 0 \<longrightarrow>
      (\<exists>d. fst (get_qgis_info w) = Inr d \<and>
           d ''total_algorithms'' = Some (PyInt (int (length (output_lines (stdout result))))) \<and>
           d ''tile_algorithms'' =
             Some (PyList (take 5
               (filter (\<lambda>line. \<exists>k \<in> {''tile'', ''qtiles'', ''xyz'', ''tms''}. contains_ci line k)
                  (output_lines (stdout result)))))))"
proof (intro conjI allI impI)
  show "tile_algorithms_of lines =
     filter (\<lambda>line. \<exists>k \<in> {''tile'', ''qtiles'', ''xyz'', ''tms'', ''raster''}. contains_ci line k)
       lines"
    by (simp add: tile_algorithms_of_def any_keyword_iff [abs_def] tile_raster_keywords_def)
next
  show "tile_algorithms_of
     [''buffer'', ''qtiles_generate'', ''raster_calc'', ''dissolve'', ''xyz_export''] =
     [''qtiles_generate'', ''raster_calc'', ''xyz_export'']"
    by (rule sample_tiles)
next
  show "output_lines sample_listing =
     [''buffer'', ''qtiles_generate'', ''raster_calc'', ''dissolve'', ''xyz_export'']"
    by (rule sample_lines)
next
  fix p result
  assume a: "fst (get_qgis_path w) = Some p \<and>
      subprocess_run w [p, ''list''] 60 = Inr result \<and> returncode result = 0"
  then obtain t1 where t1: "get_qgis_path w = (Some p, t1)"
    by (cases "get_qgis_path w") simp
  note tr = check_success [OF t1, of result]
  show "set (numbered (take 15 (tile_algorithms_of (output_lines (stdout result)))))
        \<subseteq> set (snd (check_qgis_algorithms w))"
    using a tr report_tiles [of "stdout result" p] by auto
  show "Print (''   Total algorithms: '' @ str_nat (length (output_lines (stdout result))))
        \<in> set (snd (check_qgis_algorithms w))"
    using a tr report_totals(1) [of "stdout result" p] by simp
  show "Print (''   Tile-related: '' @
             str_nat (length (tile_algorithms_of (output_lines (stdout result)))))
        \<in> set (snd (check_qgis_algorithms w))"
    using a tr report_totals(2) [of "stdout result" p] by simp
next
  fix p result
  assume a: "fst (get_qgis_path w) = Some p \<and>
      subprocess_run w [p, ''list''] 30 = Inr result \<and> returncode result = 0"
  then obtain t1 where t1: "get_qgis_path w = (Some p, t1)"
    by (cases "get_qgis_path w") simp
  have kw: "any_keyword info_tile_keywords =
              (\<lambda>line. \<exists>k \<in> {''tile'', ''qtiles'', ''xyz'', ''tms''}. contains_ci line k)"
    by (simp add: any_keyword_iff [abs_def] info_tile_keywords_def)
  show "\<exists>d. fst (get_qgis_info w) = Inr d \<and>
           d ''total_algorithms'' = Some (PyInt (int (length (output_lines (stdout result))))) \<and>
           d ''tile_algorithms'' =
             Some (PyList (take 5
               (filter (\<lambda>line. \<exists>k \<in> {''tile'', ''qtiles'', ''xyz'', ''tms''}. contains_ci line k)
                  (output_lines (stdout result)))))"
    using info_success [OF t1, of result] a unfolding kw by simp
qed

theorem tile_filter_witness:
  "filter (\<lambda>line. \<exists>k \<in> {''tile'', ''qtiles'', ''xyz'', ''tms'', ''raster''}. contains_ci line k)
     [''buffer'', ''qtiles_generate'', ''raster_calc'', ''dissolve'', ''xyz_export''] =
     [''qtiles_generate'', ''raster_calc'', ''xyz_export''] \<and>
   Print ''   Total algorithms: 5'' \<in> set (snd (check_qgis_algorithms working_world)) \<and>
   Print ''   Tile-related: 3'' \<in> set (snd (check_qgis_algorithms working_world)) \<and>
   Print ''   2. raster_calc'' \<in> set (snd (check_qgis_algorithms working_world)) \<and>
   (\<exists>d. fst (get_qgis_info working_world) = Inr d \<and>
        d ''total_algorithms'' = Some (PyInt 5))"
proof -
  note t = tile_filter
             [of "[''buffer'', ''qtiles_generate'', ''raster_calc'', ''dissolve'', ''xyz_export'']"
                 working_world]
  note t1 = t [THEN conjunct1]
  note t2 = t [THEN conjunct2, THEN conjunct1]
  note t4 = t [THEN conjunct2, THEN conjunct2, THEN conjunct2, THEN conjunct1, rule_format,
               of "''/usr/bin/qgis_process''" "CompletedProcess 0 sample_listing []"]
  note t5 = t [THEN conjunct2, THEN conjunct2, THEN conjunct2, THEN conjunct2, rule_format,
               of "''/usr/bin/qgis_process''" "CompletedProcess 0 sample_listing []"]
  have p: "fst (get_qgis_path working_world) = Some ''/usr/bin/qgis_process''"
    by (simp add: working_world_def linux_world_path)
  have r: "\<And>secs. subprocess_run working_world [''/usr/bin/qgis_process'', ''list''] secs =
             Inr (CompletedProcess 0 sample_listing [])"
    by (simp add: working_world_def linux_world_def example_world_def scripted_def)
  have f: "filter (\<lambda>line. \<exists>k \<in> {''tile'', ''qtiles'', ''xyz'', ''tms'', ''raster''}. contains_ci line k)
     [''buffer'', ''qtiles_generate'', ''raster_calc'', ''dissolve'', ''xyz_export''] =
     [''qtiles_generate'', ''raster_calc'', ''xyz_export'']"
    unfolding t1 [symmetric] by (rule t2)
  have lines: "output_lines (stdout (CompletedProcess 0 sample_listing [])) =
     [''buffer'', ''qtiles_generate'', ''raster_calc'', ''dissolve'', ''xyz_export'']"
    by (simp add: sample_lines)
  have n: "numbered [''qtiles_generate'', ''raster_calc'', ''xyz_export''] =
             [Print ''   1. qtiles_generate'', Print ''   2. raster_calc'',
              Print ''   3. xyz_export'']"
    by code_simp
  have s5: "str_nat (length [''buffer'', ''qtiles_generate'', ''raster_calc'', ''dissolve'',
                             ''xyz_export'']) = ''5''"
    by code_simp
  have s3: "str_nat (length [''qtiles_generate'', ''raster_calc'', ''xyz_export'']) = ''3''"
    by code_simp
  have h60: "fst (get_qgis_path working_world) = Some ''/usr/bin/qgis_process'' \<and>
      subprocess_run working_world [''/usr/bin/qgis_process'', ''list''] 60 =
        Inr (CompletedProcess 0 sample_listing []) \<and>
      returncode (CompletedProcess 0 sample_listing []) = 0"
    by (simp add: p r)
  have h30: "fst (get_qgis_path working_world) = Some ''/usr/bin/qgis_process'' \<and>
      subprocess_run working_world [''/usr/bin/qgis_process'', ''list''] 30 =
        Inr (CompletedProcess 0 sample_listing []) \<and>
      returncode (CompletedProcess 0 sample_listing []) = 0"
    by (simp add: p r)
  note c = t4 [OF h60, unfolded lines t2 s5 s3 n]
  have c1: "Print ''   Total algorithms: 5'' \<in> set (snd (check_qgis_algorithms working_world))"
    using c [THEN conjunct2, THEN conjunct1] by simp
  have c2: "Print ''   Tile-related: 3'' \<in> set (snd (check_qgis_algorithms working_world))"
    using c [THEN conjunct2, THEN conjunct2] by simp
  have c3: "Print ''   2. raster_calc'' \<in> set (snd (check_qgis_algorithms working_world))"
    using c [THEN conjunct1] by (simp add: n)
  from t5 [OF h30, unfolded lines] obtain d where
    d: "fst (get_qgis_info working_world) = Inr d"
       "d ''total_algorithms'' =
          Some (PyInt (int (length [''buffer'', ''qtiles_generate'', ''raster_calc'',
                                    ''dissolve'', ''xyz_export''])))"
    by blast
  have i: "\<exists>d. fst (get_qgis_info working_world) = Inr d \<and>
        d ''total_algorithms'' = Some (PyInt 5)"
    using d by (intro exI [of _ d]) simp
  show ?thesis
    using f c1 c2 c3 i by (intro conjI)
qed

text \<open>
  Claim C1 as stated fails for the list that \<open>get_qgis_info\<close> puts in its record: on the
  sample listing it leaves raster_calc out, which the five-keyword filter keeps.
\<close>

theorem tile_filter_counterexample:
  "\<not> raised (get_qgis_info working_world) \<and>
   field (get_qgis_info working_world) ''tile_algorithms'' =
     Some (PyList [''qtiles_generate'', ''xyz_export'']) \<and>
   tile_algorithms_of (output_lines sample_listing) =
     [''qtiles_generate'', ''raster_calc'', ''xyz_export'']"
proof -
  have p: "get_qgis_path working_world =
     (Some ''/usr/bin/qgis_process'',
      [Exists ''/usr/bin/qgis_process'', Print ''Found QGIS at: /usr/bin/qgis_process''])"
    by (simp add: working_world_def linux_world_path)
  have r: "subprocess_run working_world [''/usr/bin/qgis_process'', ''list''] 30 =
             Inr (CompletedProcess 0 sample_listing [])"
    by (simp add: working_world_def linux_world_def example_world_def scripted_def)
  show ?thesis
    by (simp add: info_cases [OF p] try_info_cases r sample_lines sample_tiles
          info_tile_keywords_def any_keyword_def lower_def lower_char_def
          field_def raised_def)
qed

lemma category_count_append:
  "category_count kws (xs @ line # ys) =
     category_count kws xs + (if any_keyword kws line then 1 else 0) + category_count kws ys"
  by (simp add: category_count_def)

lemma category_count_member:
  "line \<in> set lines \<Longrightarrow> any_keyword kws line \<Longrightarrow> 1 \<le> category_count kws lines"
proof -
  assume "line \<in> set lines" "any_keyword kws line"
  then have "line \<in> set (filter (any_keyword kws) lines)" by simp
  then have "0 < length (filter (any_keyword kws) lines)"
    by (rule length_pos_if_in_set)
  then show ?thesis by (simp add: category_count_length Suc_le_eq)
qed

lemma overlap_line:
  "any_keyword [''raster'', ''dem'', ''slope'', ''aspect''] ''raster export tool''"
  "any_keyword [''export'', ''save'', ''write'', ''output''] ''raster export tool''"
  "\<not> any_keyword [''vector'', ''geometry'', ''buffer'', ''clip''] ''raster export tool''"
  by (simp_all add: any_keyword_def lower_def lower_char_def)

text \<open>
  Claim C10. A category's count is taken line by line and does not look at the other
  categories: each line adds one to the count of every category one of whose keywords
  it contains. A line list that contains "raster export tool" has a Raster count and
  an Export count of at least one, and after a successful listing
  \<open>check_qgis_algorithms\<close> prints, for each category, the line with that count.
\<close>

theorem category_counts_overlap:
  "category_count kws (xs @ line # ys) =
     category_count kws xs + (if any_keyword kws line then 1 else 0) + category_count kws ys \<and>
   map_of categories ''Raster'' = Some [''raster'', ''dem'', ''slope'', ''aspect''] \<and>
   map_of categories ''Export'' = Some [''export'', ''save'', ''write'', ''output''] \<and>
   (''raster export tool'' \<in> set lines \<longrightarrow>
      1 \<le> category_count [''raster'', ''dem'', ''slope'', ''aspect''] lines \<and>
      1 \<le> category_count [''export'', ''save'', ''write'', ''output''] lines) \<and>
   (\<forall>p result c keywords.
      fst (get_qgis_path w) = Some p \<and>
      subprocess_run w [p, ''list''] 60 = Inr result \<and> returncode result = 0 \<and>
      map_of categories c = Some keywords \<longrightarrow>
      Print (category_line c (category_count keywords (output_lines (stdout result))))
        \<in> set (snd (check_qgis_algorithms w)))"
proof (intro conjI allI impI)
  show "category_count kws (xs @ line # ys) =
     category_count kws xs + (if any_keyword kws line then 1 else 0) + category_count kws ys"
    by (rule category_count_append)
next
  show "map_of categories ''Raster'' = Some [''raster'', ''dem'', ''slope'', ''aspect'']"
    by (simp add: categories_def)
next
  show "map_of categories ''Export'' = Some [''export'', ''save'', ''write'', ''output'']"
    by (simp add: categories_def)
next
  assume "''raster export tool'' \<in> set lines"
  then show "1 \<le> category_count [''raster'', ''dem'', ''slope'', ''aspect''] lines"
    by (rule category_count_member) (rule overlap_line(1))
next
  assume "''raster export tool'' \<in> set lines"
  then show "1 \<le> category_count [''export'', ''save'', ''write'', ''output''] lines"
    by (rule category_count_member) (rule overlap_line(2))
next
  fix p result c ks
  assume a: "fst (get_qgis_path w) = Some p \<and>
      subprocess_run w [p, ''list''] 60 = Inr result \<and> returncode result = 0 \<and>
      map_of categories c = Some ks"
  then obtain t1 where t1: "get_qgis_path w = (Some p, t1)"
    by (cases "get_qgis_path w") simp
  have "(c, ks) \<in> set categories"
    using a by (simp add: map_of_SomeD)
  then show "Print (category_line c (category_count ks (output_lines (stdout result))))
        \<in> set (snd (check_qgis_algorithms w))"
    using a check_success [OF t1, of result] report_category [of c ks "stdout result" p]
    by simp
qed

lemma category_line_examples:
  "category_line ''Raster'' 1 = ''  Raster      :   1 algorithms''"
  "category_line ''Export'' 1 = ''  Export      :   1 algorithms''"
  by code_simp+

theorem category_counts_overlap_witness:
  "category_count [''raster'', ''dem'', ''slope'', ''aspect''] [''raster export tool''] = 1 \<and>
   category_count [''export'', ''save'', ''write'', ''output''] [''raster export tool''] = 1 \<and>
   Print ''  Raster      :   1 algorithms'' \<in> set (snd (check_qgis_algorithms overlap_world)) \<and>
   Print ''  Export      :   1 algorithms'' \<in> set (snd (check_qgis_algorithms overlap_world))"
proof -
  note t = category_counts_overlap [of _ "[]" "''raster export tool''" "[]"
             "[''raster export tool'']" overlap_world]
  note t1 = t [THEN conjunct1]
  note tr = t [THEN conjunct2, THEN conjunct1]
  note te = t [THEN conjunct2, THEN conjunct2, THEN conjunct1]
  note t5 = t [THEN conjunct2, THEN conjunct2, THEN conjunct2, THEN conjunct2, rule_format,
               where p = "''/usr/bin/qgis_process''"
                 and result = "CompletedProcess 0 ''raster export tool\<newline>'' []"]
  have p: "fst (get_qgis_path overlap_world) = Some ''/usr/bin/qgis_process''"
    by (simp add: overlap_world_def linux_world_path)
  have r: "subprocess_run overlap_world [''/usr/bin/qgis_process'', ''list''] 60 =
             Inr (CompletedProcess 0 ''raster export tool\<newline>'' [])"
    by (simp add: overlap_world_def linux_world_def example_world_def scripted_def)
  have l: "output_lines (stdout (CompletedProcess 0 ''raster export tool\<newline>'' [])) =
             [''raster export tool'']"
    by (simp add: output_lines_def strip_def isspace_def)
  have e: "category_count kws [] = 0" for kws
    by (simp add: category_count_def)
  have c1: "category_count [''raster'', ''dem'', ''slope'', ''aspect''] [''raster export tool''] = 1"
    using t1 [of "[''raster'', ''dem'', ''slope'', ''aspect'']"]
    by (simp add: overlap_line e)
  have c2: "category_count [''export'', ''save'', ''write'', ''output''] [''raster export tool''] = 1"
    using t1 [of "[''export'', ''save'', ''write'', ''output'']"]
    by (simp add: overlap_line e)
  have hr: "fst (get_qgis_path overlap_world) = Some ''/usr/bin/qgis_process'' \<and>
      subprocess_run overlap_world [''/usr/bin/qgis_process'', ''list''] 60 =
        Inr (CompletedProcess 0 ''raster export tool\<newline>'' []) \<and>
      returncode (CompletedProcess 0 ''raster export tool\<newline>'' []) = 0 \<and>
      map_of categories ''Raster'' = Some [''raster'', ''dem'', ''slope'', ''aspect'']"
    using p r tr by simp
  have he: "fst (get_qgis_path overlap_world) = Some ''/usr/bin/qgis_process'' \<and>
      subprocess_run overlap_world [''/usr/bin/qgis_process'', ''list''] 60 =
        Inr (CompletedProcess 0 ''raster export tool\<newline>'' []) \<and>
      returncode (CompletedProcess 0 ''raster export tool\<newline>'' []) = 0 \<and>
      map_of categories ''Export'' = Some [''export'', ''save'', ''write'', ''output'']"
    using p r te by simp
  note pr = t5 [OF hr, unfolded l c1 category_line_examples]
  note pe = t5 [OF he, unfolded l c2 category_line_examples]
  show ?thesis
    using c1 c2 pr pe by (intro conjI)
qed

section \<open>Timeouts\<close>

lemma rule_line_neq:
  "c \<noteq> d \<Longrightarrow> rule_line c n \<noteq> d # s"
  "c \<noteq> d \<Longrightarrow> d # s \<noteq> rule_line c n"
  by (cases n; simp add: rule_line_def)+

lemma first_existing_marks:
  "Print (CHR 0xE2 # s) \<notin> set (snd (first_existing w ps))"
  "Print (CHR ''E'' # s) \<notin> set (snd (first_existing w ps))"
  by (induction ps) (auto split: prod.splits)

lemma platform_default_marks:
  "Print (CHR 0xE2 # s) \<notin> set (snd (platform_default w))"
  "Print (CHR ''E'' # s) \<notin> set (snd (platform_default w))"
proof -
  have "Print (CHR 0xE2 # s) \<notin> set (snd (platform_default w)) \<and>
        Print (CHR ''E'' # s) \<notin> set (snd (platform_default w))"
  proof (cases "possible_paths (lower (platform_system w))")
    case None
    then show ?thesis by (simp add: platform_default_def)
  next
    case (Some paths)
    obtain r t where rt: "first_existing w paths = (r, t)" by (cases "first_existing w paths")
    have "Print (CHR 0xE2 # s) \<notin> set t" "Print (CHR ''E'' # s) \<notin> set t"
      using first_existing_marks [where w = w and ps = paths and s = s] rt by simp_all
    with Some rt show ?thesis
      by (cases r) (simp_all add: platform_default_def)
  qed
  then show "Print (CHR 0xE2 # s) \<notin> set (snd (platform_default w))"
    and "Print (CHR ''E'' # s) \<notin> set (snd (platform_default w))"
    by simp_all
qed

lemma get_qgis_path_marks:
  "Print (CHR 0xE2 # s) \<notin> set (snd (get_qgis_path w))"
  "Print (CHR ''E'' # s) \<notin> set (snd (get_qgis_path w))"
proof -
  obtain r t where rt: "platform_default w = (r, t)" by (cases "platform_default w")
  have t: "Print (CHR 0xE2 # s) \<notin> set t" "Print (CHR ''E'' # s) \<notin> set t"
    using platform_default_marks [where w = w and s = s] rt by simp_all
  show "Print (CHR 0xE2 # s) \<notin> set (snd (get_qgis_path w))"
    using rt t by (auto simp: get_qgis_path_def split: option.splits)
  show "Print (CHR ''E'' # s) \<notin> set (snd (get_qgis_path w))"
    using rt t by (auto simp: get_qgis_path_def split: option.splits)
qed

lemma system_information_marks:
  "Print (CHR 0xE2 # s) \<notin> set (system_information w)"
  "Print (CHR ''E'' # s) \<notin> set (system_information w)"
  by (simp_all add: system_information_def emoji_magnifier_def rule_line_neq)

lemma check_version_marks:
  "Print (CHR 0xE2 # s) \<notin> set (check_version w p)"
  "Print (CHR ''E'' # s) \<notin> set (check_version w p)"
  by (simp_all add: check_version_def split: sum.splits)

lemma numbered_marks:
  "Print (CHR 0xE2 # s) \<notin> set (numbered xs)"
  "Print (CHR ''E'' # s) \<notin> set (numbered xs)"
  by (auto simp: numbered_def)

lemma report_marks:
  "Print (CHR 0xE2 # s) \<notin> set (report_algorithms p out)"
  by (auto simp: report_algorithms_def report_sample_def report_tile_def
        report_categories_def report_summary_def Let_def numbered_marks
        category_line_def rule_line_neq)

lemma check_absent:
  assumes "get_qgis_path w = (None, t1)"
  shows "check_qgis_algorithms w = (Inr False, system_information w @ t1 @ not_found_help)"
  using assms by (simp add: check_qgis_algorithms_def)

lemma check_failed:
  assumes "get_qgis_path w = (Some p, t1)"
      and "subprocess_run w [p, ''list''] 60 = Inr result"
      and "returncode result \<noteq> 0"
  shows "check_qgis_algorithms w =
           (Inr False,
            system_information w @ t1 @
            [Print (emoji_check @ '' QGIS found at: '' @ p),
             Print ''Checking QGIS version and algorithms...''] @
            check_version w p @ [Run [p, ''list''] 60] @
            [Print (emoji_cross @ '' QGIS command failed: '' @ stderr result),
             Print (''Return code: '' @ str_int (returncode result))])"
proof -
  have "p \<noteq> []" using get_qgis_path_nonempty [of w p] assms(1) by simp
  with assms show ?thesis
    by (simp add: check_qgis_algorithms_def try_check_def Let_def)
qed

lemma common_marks:
  assumes "get_qgis_path w = (r, t1)"
  shows "Print (emoji_cross @ s) \<notin>
           set (system_information w @ t1 @
                [Print (emoji_check @ '' QGIS found at: '' @ p),
                 Print ''Checking QGIS version and algorithms...''] @
                check_version w p @ [Run [p, ''list''] 60])"
    and "Print (''Exception type: '' @ n) \<notin>
           set (system_information w @ t1 @
                [Print (emoji_check @ '' QGIS found at: '' @ p),
                 Print ''Checking QGIS version and algorithms...''] @
                check_version w p @ [Run [p, ''list''] 60])"
proof -
  have t1: "Print (CHR 0xE2 # s') \<notin> set t1" "Print (CHR ''E'' # s') \<notin> set t1" for s'
    using get_qgis_path_marks [where w = w and s = s'] assms by simp_all
  show "Print (emoji_cross @ s) \<notin>
           set (system_information w @ t1 @
                [Print (emoji_check @ '' QGIS found at: '' @ p),
                 Print ''Checking QGIS version and algorithms...''] @
                check_version w p @ [Run [p, ''list''] 60])"
    by (simp add: emoji_cross_def emoji_check_def system_information_marks t1
          check_version_marks)
  show "Print (''Exception type: '' @ n) \<notin>
           set (system_information w @ t1 @
                [Print (emoji_check @ '' QGIS found at: '' @ p),
                 Print ''Checking QGIS version and algorithms...''] @
                check_version w p @ [Run [p, ''list''] 60])"
    by (simp add: emoji_check_def system_information_marks t1 check_version_marks)
qed

lemma timeout_line_iff:
  "timeout_line \<in> set (snd (check_qgis_algorithms w)) \<longleftrightarrow>
     (\<exists>p m. fst (get_qgis_path w) = Some p \<and>
            subprocess_run w [p, ''list''] 60 = Inl (TimeoutExpired m))"
proof -
  obtain r t1 where rt: "get_qgis_path w = (r, t1)" by (cases "get_qgis_path w")
  note cm = common_marks(1) [OF rt, of "'' QGIS command timed out (60 seconds)''"]
  have t1: "timeout_line \<notin> set t1"
    using get_qgis_path_marks(1) [of _ w] rt by (simp add: timeout_line_def emoji_cross_def)
  show ?thesis
  proof (cases r)
    case None
    with rt t1 show ?thesis
      using system_information_marks(1) [of _ w]
      by (simp add: check_absent [OF rt [unfolded None]] not_found_help_def)
         (simp add: timeout_line_def emoji_cross_def emoji_bulb_def)
  next
    case (Some p)
    note rt' = rt [unfolded Some]
    show ?thesis
    proof (cases "subprocess_run w [p, ''list''] 60")
      case (Inr result)
      show ?thesis
      proof (cases "returncode result = 0")
        case True
        with Inr rt Some cm [of p] report_marks [of _ p "stdout result"] show ?thesis
          by (simp add: check_success [OF rt' Inr True] timeout_line_def)
             (simp add: emoji_cross_def)
      next
        case False
        with Inr rt Some cm [of p] show ?thesis
          by (simp add: check_failed [OF rt' Inr False] timeout_line_def)
             (simp add: emoji_cross_def)
      qed
    next
      case (Inl e)
      with rt Some cm [of p] show ?thesis
        by (cases e)
           (simp_all add: check_raised [OF rt' Inl] timeout_line_def timeout_message_def
              generic_message_def emoji_cross_def)
    qed
  qed
qed

lemma info_raised:
  assumes "get_qgis_path w = (Some p, t1)"
      and "subprocess_run w [p, ''list''] 30 = Inl e"
  shows "fst (get_qgis_info w) = Inr (info_handlers (initial_info w (Some p)) e)"
  using assms by (simp add: info_cases [OF assms(1)] try_info_cases)

lemma info_listed:
  assumes "get_qgis_path w = (Some p, t1)"
      and "subprocess_run w [p, ''list''] 30 = Inr result"
      and "returncode result = 0"
  shows "\<exists>d. fst (get_qgis_info w) = Inr d \<and>
           d ''qgis_working'' = Some (PyBool True) \<and> d ''error'' = None"
  using assms by (simp add: info_cases [OF assms(1)] try_info_cases initial_info_def)

lemma check_version_raised:
  "subprocess_run w [p, ''--version''] 30 = Inl e \<Longrightarrow>
   check_version w p = [Run [p, ''--version''] 30]"
  by (simp add: check_version_def)

lemma check_dropped_version:
  assumes "fst (get_qgis_path w) = Some p"
      and "subprocess_run w [p, ''--version''] 30 = Inl e"
  shows "check_qgis_algorithms w =
           (Inr (succeeded (subprocess_run w [p, ''list''] 60)),
            system_information w @ snd (get_qgis_path w) @
            [Print (emoji_check @ '' QGIS found at: '' @ p),
             Print ''Checking QGIS version and algorithms...'',
             Run [p, ''--version''] 30,
             Run [p, ''list''] 60] @
            (case subprocess_run w [p, ''list''] 60 of
               Inl e' \<Rightarrow> snd (check_handlers p e')
             | Inr result \<Rightarrow>
                 if returncode result \<noteq> 0
                 then [Print (emoji_cross @ '' QGIS command failed: '' @ stderr result),
                       Print (''Return code: '' @ str_int (returncode result))]
                 else report_algorithms p (stdout result)))"
proof -
  obtain t1 where t1: "get_qgis_path w = (Some p, t1)"
    using assms(1) by (cases "get_qgis_path w") simp
  note v = check_version_raised [OF assms(2)]
  show ?thesis
  proof (cases "subprocess_run w [p, ''list''] 60")
    case (Inl e')
    then show ?thesis
      using check_handlers_fst [of p e']
      by (simp add: check_raised [OF t1 Inl] v t1 succeeded_def)
  next
    case (Inr result)
    show ?thesis
    proof (cases "returncode result = 0")
      case True
      with Inr show ?thesis
        by (simp add: check_success [OF t1 Inr True] v t1 succeeded_def)
    next
      case False
      with Inr show ?thesis
        by (simp add: check_failed [OF t1 Inr False] v t1 succeeded_def)
    qed
  qed
qed

lemma info_dropped_version:
  assumes "fst (get_qgis_path w) = Some p"
      and "subprocess_run w [p, ''list''] 30 = Inr result"
      and "returncode result = 0"
      and "subprocess_run w [p, ''--version''] 10 = Inl e"
  shows "get_qgis_info w =
           (Inr ((initial_info w (Some p))
                   (''total_algorithms'' \<mapsto> PyInt (int (length (output_lines (stdout result)))),
                    ''tile_algorithms'' \<mapsto>
                      PyList (take 5 (filter (any_keyword info_tile_keywords)
                                         (output_lines (stdout result)))),
                    ''qgis_working'' \<mapsto> PyBool True,
                    ''qgis_version'' \<mapsto> PyStr ''Available'')),
            snd (get_qgis_path w) @ [Run [p, ''list''] 30, Run [p, ''--version''] 10])"
proof -
  obtain t1 where t1: "get_qgis_path w = (Some p, t1)"
    using assms(1) by (cases "get_qgis_path w") simp
  show ?thesis
    using assms(2-4) by (simp add: info_cases [OF t1] try_info_cases t1)
qed

text \<open>
  Claim C8, as amended. \<open>check_qgis_algorithms\<close> prints its timeout report exactly when
  a path was resolved and the \<open>list\<close> invocation timed out; it then returns false, the
  report closes its output, and no line of the generic exception report is printed.
  When the \<open>list\<close> invocation of \<open>get_qgis_info\<close> times out, the record has
  \<open>qgis_working\<close> false and the error "QGIS command timed out", whatever the message of
  the exception is. When that invocation succeeds, the record has no error, whatever
  the version check does. A version check that raises, a timeout included, is dropped
  without any report: in \<open>check_qgis_algorithms\<close> it leaves nothing but its invocation
  in what the operation does, every line printed and the boolean returned being those
  of the resolver and the \<open>list\<close> invocation alone; in \<open>get_qgis_info\<close> the record is
  the one of a successful listing with the version "Available".
\<close>

theorem list_timeout_reported:
  "(timeout_line \<in> set (snd (check_qgis_algorithms w)) \<longleftrightarrow>
      (\<exists>p m. fst (get_qgis_path w) = Some p \<and>
             subprocess_run w [p, ''list''] 60 = Inl (TimeoutExpired m))) \<and>
   (\<forall>p m. fst (get_qgis_path w) = Some p \<and>
          subprocess_run w [p, ''list''] 60 = Inl (TimeoutExpired m) \<longrightarrow>
      fst (check_qgis_algorithms w) = Inr False \<and>
      (\<exists>t. snd (check_qgis_algorithms w) = t @ timeout_message) \<and>
      (\<forall>n m'. set (generic_message n m') \<inter> set (snd (check_qgis_algorithms w)) = {})) \<and>
   (\<forall>p m. fst (get_qgis_path w) = Some p \<and>
          subprocess_run w [p, ''list''] 30 = Inl (TimeoutExpired m) \<longrightarrow>
      (\<exists>d. fst (get_qgis_info w) = Inr d \<and>
           d ''qgis_working'' = Some (PyBool False) \<and>
           d ''error'' = Some (PyStr ''QGIS command timed out''))) \<and>
   (\<forall>p result. fst (get_qgis_path w) = Some p \<and>
          subprocess_run w [p, ''list''] 30 = Inr result \<and> returncode result = 0 \<longrightarrow>
      (\<exists>d. fst (get_qgis_info w) = Inr d \<and>
           d ''qgis_working'' = Some (PyBool True) \<and> d ''error'' = None)) \<and>
   (\<forall>p e. fst (get_qgis_path w) = Some p \<and>
          subprocess_run w [p, ''--version''] 30 = Inl e \<longrightarrow>
      check_qgis_algorithms w =
        (Inr (succeeded (subprocess_run w [p, ''list''] 60)),
         system_information w @ snd (get_qgis_path w) @
         [Print (emoji_check @ '' QGIS found at: '' @ p),
          Print ''Checking QGIS version and algorithms...'',
          Run [p, ''--version''] 30,
          Run [p, ''list''] 60] @
         (case subprocess_run w [p, ''list''] 60 of
            Inl e' \<Rightarrow> snd (check_handlers p e')
          | Inr result \<Rightarrow>
              if returncode result \<noteq> 0
              then [Print (emoji_cross @ '' QGIS command failed: '' @ stderr result),
                    Print (''Return code: '' @ str_int (returncode result))]
              else report_algorithms p (stdout result)))) \<and>
   (\<forall>p result e. fst (get_qgis_path w) = Some p \<and>
          subprocess_run w [p, ''list''] 30 = Inr result \<and> returncode result = 0 \<and>
          subprocess_run w [p, ''--version''] 10 = Inl e \<longrightarrow>
      get_qgis_info w =
        (Inr ((initial_info w (Some p))
                (''total_algorithms'' \<mapsto> PyInt (int (length (output_lines (stdout result)))),
                 ''tile_algorithms'' \<mapsto>
                   PyList (take 5 (filter (any_keyword info_tile_keywords)
                                      (output_lines (stdout result)))),
                 ''qgis_working'' \<mapsto> PyBool True,
                 ''qgis_version'' \<mapsto> PyStr ''Available'')),
         snd (get_qgis_path w) @ [Run [p, ''list''] 30, Run [p, ''--version''] 10])) \<and>
   fst (check_qgis_algorithms w) =
     Inr (case fst (get_qgis_path w) of
            None \<Rightarrow> False
          | Some p \<Rightarrow> succeeded (subprocess_run w [p, ''list''] 60))"
proof (intro conjI allI impI)
  show "timeout_line \<in> set (snd (check_qgis_algorithms w)) \<longleftrightarrow>
      (\<exists>p m. fst (get_qgis_path w) = Some p \<and>
             subprocess_run w [p, ''list''] 60 = Inl (TimeoutExpired m))"
    by (rule timeout_line_iff)
next
  fix p m
  assume a: "fst (get_qgis_path w) = Some p \<and>
          subprocess_run w [p, ''list''] 60 = Inl (TimeoutExpired m)"
  then obtain t1 where t1: "get_qgis_path w = (Some p, t1)"
    by (cases "get_qgis_path w") simp
  from a have run: "subprocess_run w [p, ''list''] 60 = Inl (TimeoutExpired m)" by simp
  note tr = check_raised [OF t1 run]
  show "fst (check_qgis_algorithms w) = Inr False"
    by (simp add: tr)
  show "\<exists>t. snd (check_qgis_algorithms w) = t @ timeout_message"
    by (simp add: tr)
  fix n m'
  define pre where
    "pre = system_information w @ t1 @
           [Print (emoji_check @ '' QGIS found at: '' @ p),
            Print ''Checking QGIS version and algorithms...''] @
           check_version w p @ [Run [p, ''list''] 60]"
  have s: "snd (check_qgis_algorithms w) = pre @ timeout_message"
    by (simp add: tr pre_def)
  have a1: "Print (emoji_cross @ '' Error checking QGIS: '' @ m') \<notin> set pre"
    unfolding pre_def by (rule common_marks(1) [OF t1])
  have a2: "Print (''Exception type: '' @ n) \<notin> set pre"
    unfolding pre_def by (rule common_marks(2) [OF t1])
  have b1: "Print (emoji_cross @ '' Error checking QGIS: '' @ m') \<notin> set timeout_message"
    by (simp add: timeout_message_def emoji_cross_def)
  have b2: "Print (''Exception type: '' @ n) \<notin> set timeout_message"
    by (simp add: timeout_message_def emoji_cross_def)
  show "set (generic_message n m') \<inter> set (snd (check_qgis_algorithms w)) = {}"
    unfolding s generic_message_def using a1 a2 b1 b2 by auto
next
  fix p m
  assume a: "fst (get_qgis_path w) = Some p \<and>
          subprocess_run w [p, ''list''] 30 = Inl (TimeoutExpired m)"
  then obtain t1 where t1: "get_qgis_path w = (Some p, t1)"
    by (cases "get_qgis_path w") simp
  from a have run: "subprocess_run w [p, ''list''] 30 = Inl (TimeoutExpired m)" by simp
  show "\<exists>d. fst (get_qgis_info w) = Inr d \<and>
           d ''qgis_working'' = Some (PyBool False) \<and>
           d ''error'' = Some (PyStr ''QGIS command timed out'')"
    by (simp add: info_raised [OF t1 run])
next
  fix p result
  assume a: "fst (get_qgis_path w) = Some p \<and>
          subprocess_run w [p, ''list''] 30 = Inr result \<and> returncode result = 0"
  then obtain t1 where t1: "get_qgis_path w = (Some p, t1)"
    by (cases "get_qgis_path w") simp
  from a show "\<exists>d. fst (get_qgis_info w) = Inr d \<and>
           d ''qgis_working'' = Some (PyBool True) \<and> d ''error'' = None"
    using info_listed [OF t1, of result] by simp
next
  fix p e
  assume a: "fst (get_qgis_path w) = Some p \<and>
          subprocess_run w [p, ''--version''] 30 = Inl e"
  then show "check_qgis_algorithms w =
        (Inr (succeeded (subprocess_run w [p, ''list''] 60)),
         system_information w @ snd (get_qgis_path w) @
         [Print (emoji_check @ '' QGIS found at: '' @ p),
          Print ''Checking QGIS version and algorithms...'',
          Run [p, ''--version''] 30,
          Run [p, ''list''] 60] @
         (case subprocess_run w [p, ''list''] 60 of
            Inl e' \<Rightarrow> snd (check_handlers p e')
          | Inr result \<Rightarrow>
              if returncode result \<noteq> 0
              then [Print (emoji_cross @ '' QGIS command failed: '' @ stderr result),
                    Print (''Return code: '' @ str_int (returncode result))]
              else report_algorithms p (stdout result)))"
    by (intro check_dropped_version) simp_all
next
  fix p result e
  assume a: "fst (get_qgis_path w) = Some p \<and>
          subprocess_run w [p, ''list''] 30 = Inr result \<and> returncode result = 0 \<and>
          subprocess_run w [p, ''--version''] 10 = Inl e"
  then show "get_qgis_info w =
        (Inr ((initial_info w (Some p))
                (''total_algorithms'' \<mapsto> PyInt (int (length (output_lines (stdout result)))),
                 ''tile_algorithms'' \<mapsto>
                   PyList (take 5 (filter (any_keyword info_tile_keywords)
                                      (output_lines (stdout result)))),
                 ''qgis_working'' \<mapsto> PyBool True,
                 ''qgis_version'' \<mapsto> PyStr ''Available'')),
         snd (get_qgis_path w) @ [Run [p, ''list''] 30, Run [p, ''--version''] 10])"
    by (intro info_dropped_version) simp_all
next
  show "fst (check_qgis_algorithms w) =
     Inr (case fst (get_qgis_path w) of
            None \<Rightarrow> False
          | Some p \<Rightarrow> succeeded (subprocess_run w [p, ''list''] 60))"
    by (rule check_fst)
qed

lemma slow_list_world_facts:
  "fst (get_qgis_path slow_list_world) = Some ''/usr/bin/qgis_process''"
  "subprocess_run slow_list_world [''/usr/bin/qgis_process'', ''list''] secs =
     Inl (TimeoutExpired ''Command timed out'')"
proof -
  show "fst (get_qgis_path slow_list_world) = Some ''/usr/bin/qgis_process''"
    by (simp add: slow_list_world_def linux_world_path)
  show "subprocess_run slow_list_world [''/usr/bin/qgis_process'', ''list''] secs =
     Inl (TimeoutExpired ''Command timed out'')"
    by (simp add: slow_list_world_def linux_world_def example_world_def scripted_def)
qed

lemma slow_version_world_facts:
  "get_qgis_path slow_version_world =
     (Some ''/usr/bin/qgis_process'',
      [Exists ''/usr/bin/qgis_process'', Print ''Found QGIS at: /usr/bin/qgis_process''])"
  "subprocess_run slow_version_world [''/usr/bin/qgis_process'', ''--version''] secs =
     Inl (TimeoutExpired ''Command timed out'')"
  "subprocess_run slow_version_world [''/usr/bin/qgis_process'', ''list''] secs =
     Inr (CompletedProcess 0 sample_listing [])"
proof -
  show "get_qgis_path slow_version_world =
     (Some ''/usr/bin/qgis_process'',
      [Exists ''/usr/bin/qgis_process'', Print ''Found QGIS at: /usr/bin/qgis_process''])"
    by (simp add: slow_version_world_def linux_world_path)
  show "subprocess_run slow_version_world [''/usr/bin/qgis_process'', ''--version''] secs =
     Inl (TimeoutExpired ''Command timed out'')"
    by (simp add: slow_version_world_def linux_world_def example_world_def scripted_def)
  show "subprocess_run slow_version_world [''/usr/bin/qgis_process'', ''list''] secs =
     Inr (CompletedProcess 0 sample_listing [])"
    by (simp add: slow_version_world_def linux_world_def example_world_def scripted_def)
qed

theorem list_timeout_reported_witness:
  "timeout_line \<in> set (snd (check_qgis_algorithms slow_list_world)) \<and>
   fst (check_qgis_algorithms slow_list_world) = Inr False \<and>
   (\<exists>d. fst (get_qgis_info slow_list_world) = Inr d \<and>
        d ''error'' = Some (PyStr ''QGIS command timed out'')) \<and>
   check_qgis_algorithms slow_version_world =
     (Inr True,
      system_information slow_version_world @
      [Exists ''/usr/bin/qgis_process'', Print ''Found QGIS at: /usr/bin/qgis_process'',
       Print (emoji_check @ '' QGIS found at: /usr/bin/qgis_process''),
       Print ''Checking QGIS version and algorithms...'',
       Run [''/usr/bin/qgis_process'', ''--version''] 30,
       Run [''/usr/bin/qgis_process'', ''list''] 60] @
      report_algorithms ''/usr/bin/qgis_process'' sample_listing)"
proof -
  note tv = list_timeout_reported [of slow_version_world]
  note t5 = tv [THEN conjunct2, THEN conjunct2, THEN conjunct2, THEN conjunct2,
                THEN conjunct1, rule_format,
                where p = "''/usr/bin/qgis_process''"
                  and e = "TimeoutExpired ''Command timed out''"]
  have hv: "fst (get_qgis_path slow_version_world) = Some ''/usr/bin/qgis_process'' \<and>
            subprocess_run slow_version_world [''/usr/bin/qgis_process'', ''--version''] 30 =
              Inl (TimeoutExpired ''Command timed out'')"
    by (simp add: slow_version_world_facts)
  have v: "check_qgis_algorithms slow_version_world =
     (Inr True,
      system_information slow_version_world @
      [Exists ''/usr/bin/qgis_process'', Print ''Found QGIS at: /usr/bin/qgis_process'',
       Print (emoji_check @ '' QGIS found at: /usr/bin/qgis_process''),
       Print ''Checking QGIS version and algorithms...'',
       Run [''/usr/bin/qgis_process'', ''--version''] 30,
       Run [''/usr/bin/qgis_process'', ''list''] 60] @
      report_algorithms ''/usr/bin/qgis_process'' sample_listing)"
    using t5 [OF hv] by (simp add: slow_version_world_facts succeeded_def)
  note t = list_timeout_reported [of slow_list_world]
  note t1 = t [THEN conjunct1]
  note t2 = t [THEN conjunct2, THEN conjunct1, rule_format,
               where p = "''/usr/bin/qgis_process''" and m = "''Command timed out''"]
  note t3 = t [THEN conjunct2, THEN conjunct2, THEN conjunct1, rule_format,
               where p = "''/usr/bin/qgis_process''" and m = "''Command timed out''"]
  have h: "fst (get_qgis_path slow_list_world) = Some ''/usr/bin/qgis_process'' \<and>
           subprocess_run slow_list_world [''/usr/bin/qgis_process'', ''list''] secs =
             Inl (TimeoutExpired ''Command timed out'')" for secs
    by (simp add: slow_list_world_facts)
  have a: "timeout_line \<in> set (snd (check_qgis_algorithms slow_list_world))"
    unfolding t1 using h [of 60] by blast
  have b: "fst (check_qgis_algorithms slow_list_world) = Inr False"
    using t2 [OF h [of 60]] by blast
  have c: "\<exists>d. fst (get_qgis_info slow_list_world) = Inr d \<and>
        d ''error'' = Some (PyStr ''QGIS command timed out'')"
    using t3 [OF h [of 30]] by blast
  show ?thesis using a b c v by (intro conjI)
qed

text \<open>
  Claim C8 as stated fails for the version checks: when \<open>--version\<close> runs into its
  timeout and the listing succeeds, \<open>check_qgis_algorithms\<close> returns true without the
  timeout report, and the record of \<open>get_qgis_info\<close> says working, with no error.
\<close>

theorem list_timeout_reported_counterexample:
  "subprocess_run slow_version_world [''/usr/bin/qgis_process'', ''--version''] 30 =
     Inl (TimeoutExpired ''Command timed out'') \<and>
   ([''/usr/bin/qgis_process'', ''--version''], 30)
     \<in> set (invocations (snd (check_qgis_algorithms slow_version_world))) \<and>
   fst (check_qgis_algorithms slow_version_world) = Inr True \<and>
   timeout_line \<notin> set (snd (check_qgis_algorithms slow_version_world)) \<and>
   subprocess_run slow_version_world [''/usr/bin/qgis_process'', ''--version''] 10 =
     Inl (TimeoutExpired ''Command timed out'') \<and>
   ([''/usr/bin/qgis_process'', ''--version''], 10)
     \<in> set (invocations (snd (get_qgis_info slow_version_world))) \<and>
   \<not> raised (get_qgis_info slow_version_world) \<and>
   field (get_qgis_info slow_version_world) ''qgis_working'' = Some (PyBool True) \<and>
   field (get_qgis_info slow_version_world) ''error'' = None"
proof -
  note f = slow_version_world_facts
  have p: "fst (get_qgis_path slow_version_world) = Some ''/usr/bin/qgis_process''"
    by (simp add: f)
  have 1: "([''/usr/bin/qgis_process'', ''--version''], 30)
     \<in> set (invocations (snd (check_qgis_algorithms slow_version_world)))"
    by (simp add: check_invocations p)
  have 2: "fst (check_qgis_algorithms slow_version_world) = Inr True"
    by (simp add: check_fst p f succeeded_def)
  have 3: "timeout_line \<notin> set (snd (check_qgis_algorithms slow_version_world))"
    by (simp add: timeout_line_iff p f)
  have 4: "([''/usr/bin/qgis_process'', ''--version''], 10)
     \<in> set (invocations (snd (get_qgis_info slow_version_world)))"
    by (simp add: info_invocations p f succeeded_def)
  have 5: "\<not> raised (get_qgis_info slow_version_world) \<and>
   field (get_qgis_info slow_version_world) ''qgis_working'' = Some (PyBool True) \<and>
   field (get_qgis_info slow_version_world) ''error'' = None"
    by (simp add: info_cases [OF f(1)] try_info_cases f initial_info_def field_def raised_def)
  show ?thesis
    using 1 2 3 4 5 f(2) by (intro conjI) simp_all
qed

section \<open>Exceptions that leave the operations\<close>

lemma emit_accepted:
  "(\<And>s. Print s \<in> set t \<Longrightarrow> con s = None) \<Longrightarrow> emit con t = (None, t)"
proof (induction t)
  case Nil
  then show ?case by simp
next
  case (Cons a t)
  then have "emit con t = (None, t)" by simp
  with Cons.prems show ?case by (cases a) simp_all
qed

lemma emit_refused: "fst (emit con t) = Some e \<Longrightarrow> \<exists>s. con s = Some e"
proof (induction t)
  case Nil
  then show ?case by simp
next
  case (Cons a t)
  then show ?case
    by (cases a) (auto split: option.splits prod.splits)
qed

lemma written_accepted:
  "(\<And>s. Print s \<in> set t \<Longrightarrow> con s = None) \<Longrightarrow> written con t v = (Inr v, t)"
  by (simp add: written_def emit_accepted)

lemma written_refused: "fst (written con t v) = Inl e \<Longrightarrow> \<exists>s. con s = Some e"
  using emit_refused [of con t e]
  by (cases "emit con t") (auto simp: written_def split: option.splits)

lemma written_value: "fst (written con t v) = Inr v' \<Longrightarrow> v' = v"
  by (cases "emit con t") (auto simp: written_def split: option.splits)

lemma check_on_raised:
  assumes "fst (check_qgis_algorithms_on con w) = Inl e"
  shows "\<exists>s. con s = Some e"
proof -
  obtain r0 ts where w0: "written con (system_information w) () = (r0, ts)"
    by (cases "written con (system_information w) ()")
  show ?thesis
  proof (cases r0)
    case (Inl e0)
    with w0 assms have "e0 = e" by (simp add: check_qgis_algorithms_on_def)
    with Inl w0 written_refused [of con "system_information w" "()" e] show ?thesis by simp
  next
    case r0: (Inr u)
    obtain r1 t1 where w1: "get_qgis_path_on con w = (r1, t1)"
      by (cases "get_qgis_path_on con w")
    show ?thesis
    proof (cases r1)
      case (Inl e1)
      with r0 w0 w1 assms have "e1 = e" by (simp add: check_qgis_algorithms_on_def)
      with Inl w1 have "fst (get_qgis_path_on con w) = Inl e" by simp
      then show ?thesis
        using written_refused [of con "snd (get_qgis_path w)" "fst (get_qgis_path w)" e]
        by (simp add: get_qgis_path_on_def case_prod_unfold)
    next
      case r1: (Inr qgis_path)
      have absent: ?thesis
        if "fst (case written con not_found_help False of
                  (r, t) \<Rightarrow> (r, ts @ t1 @ t)) = Inl e"
        using that written_refused [of con not_found_help False e]
        by (simp add: case_prod_unfold)
      show ?thesis
      proof (cases qgis_path)
        case None
        with r0 w0 r1 w1 assms absent show ?thesis
          by (simp add: check_qgis_algorithms_on_def)
      next
        case (Some p)
        show ?thesis
        proof (cases "p = []")
          case True
          with Some r0 w0 r1 w1 assms absent show ?thesis
            by (simp add: check_qgis_algorithms_on_def)
        next
          case False
          obtain x t2 where x: "try_check_on con w p = (x, t2)"
            by (cases "try_check_on con w p")
          show ?thesis
          proof (cases x)
            case (Inr b)
            with x False Some r0 w0 r1 w1 assms show ?thesis
              by (simp add: check_qgis_algorithms_on_def)
          next
            case (Inl e2)
            obtain r t3 where h: "check_handlers p e2 = (r, t3)"
              by (cases "check_handlers p e2")
            have r: "r = Inr False" using check_handlers_fst [of p e2] h by simp
            obtain y t3' where em: "emit con t3 = (y, t3')" by (cases "emit con t3")
            show ?thesis
            proof (cases y)
              case None
              with em h r Inl x False Some r0 w0 r1 w1 assms show ?thesis
                by (simp add: check_qgis_algorithms_on_def)
            next
              case (Some e')
              with em h r Inl x False \<open>qgis_path = Some p\<close> r0 w0 r1 w1 assms have "e' = e"
                by (simp add: check_qgis_algorithms_on_def)
              with Some em emit_refused [of con t3 e] show ?thesis by simp
            qed
          qed
        qed
      qed
    qed
  qed
qed

lemma check_version_on_accepts:
  assumes "\<And>s. Print s \<in> set (check_version w p) \<Longrightarrow> con s = None"
  shows "check_version_on con w p = check_version w p"
  using assms by (simp add: check_version_on_def written_accepted)

lemma try_check_on_accepts:
  assumes "\<And>s. Print s \<in> set (snd (try_check w p)) \<Longrightarrow> con s = None"
  shows "try_check_on con w p = try_check w p"
proof -
  let ?seg = "[Print (emoji_check @ '' QGIS found at: '' @ p),
               Print ''Checking QGIS version and algorithms...'']"
  define t0 where "t0 = ?seg @ check_version w p @ [Run [p, ''list''] 60]"
  have pre: "\<exists>rest. snd (try_check w p) = ?seg @ check_version w p @ rest"
    by (auto simp: try_check_def Let_def split: sum.splits)
  have seg: "written con ?seg () = (Inr (), ?seg)"
    using pre assms by (intro written_accepted) auto
  have ver: "check_version_on con w p = check_version w p"
    using pre assms by (intro check_version_on_accepts) auto
  show ?thesis
  proof (cases "subprocess_run w [p, ''list''] 60")
    case (Inl e)
    with seg ver show ?thesis
      by (simp add: try_check_on_def try_check_def Let_def)
  next
    case run: (Inr result)
    show ?thesis
    proof (cases "returncode result = 0")
      case True
      let ?rep = "report_algorithms p (stdout result)"
      have "snd (try_check w p) = ?seg @ check_version w p @ [Run [p, ''list''] 60] @ ?rep"
        using run True by (simp add: try_check_def Let_def)
      then have "written con ?rep True = (Inr True, ?rep)"
        using assms by (intro written_accepted) auto
      with seg ver run True show ?thesis
        by (simp add: try_check_on_def try_check_def Let_def)
    next
      case False
      let ?msg = "[Print (emoji_cross @ '' QGIS command failed: '' @ stderr result),
                   Print (''Return code: '' @ str_int (returncode result))]"
      have "snd (try_check w p) = ?seg @ check_version w p @ [Run [p, ''list''] 60] @ ?msg"
        using run False by (simp add: try_check_def Let_def)
      then have "written con ?msg False = (Inr False, ?msg)"
        using assms by (intro written_accepted) auto
      with seg ver run False show ?thesis
        by (simp add: try_check_on_def try_check_def Let_def)
    qed
  qed
qed

lemma get_qgis_path_on_accepts:
  assumes "\<And>s. Print s \<in> set (snd (get_qgis_path w)) \<Longrightarrow> con s = None"
  shows "get_qgis_path_on con w = (Inr (fst (get_qgis_path w)), snd (get_qgis_path w))"
  using assms by (simp add: get_qgis_path_on_def case_prod_unfold written_accepted)

lemma check_on_accepts:
  assumes "\<And>s. Print s \<in> set (snd (check_qgis_algorithms w)) \<Longrightarrow> con s = None"
  shows "check_qgis_algorithms_on con w = check_qgis_algorithms w"
proof -
  obtain r t1 where rt: "get_qgis_path w = (r, t1)" by (cases "get_qgis_path w")
  have pre: "\<exists>rest. snd (check_qgis_algorithms w) = system_information w @ t1 @ rest"
    using rt by (auto simp: check_qgis_algorithms_def split: option.splits prod.splits sum.splits)
  have sys: "written con (system_information w) () = (Inr (), system_information w)"
    using pre assms by (intro written_accepted) auto
  have "\<And>s. Print s \<in> set (snd (get_qgis_path w)) \<Longrightarrow> con s = None"
    using pre assms rt by auto
  then have path: "get_qgis_path_on con w = (Inr r, t1)"
    using get_qgis_path_on_accepts [of w con] rt by simp
  have absent: "written con not_found_help False = (Inr False, not_found_help)"
    if "snd (check_qgis_algorithms w) = system_information w @ t1 @ not_found_help"
    using that assms by (intro written_accepted) auto
  show ?thesis
  proof (cases r)
    case None
    then have "snd (check_qgis_algorithms w) = system_information w @ t1 @ not_found_help"
      using rt by (simp add: check_qgis_algorithms_def)
    with None rt sys path absent show ?thesis
      by (simp add: check_qgis_algorithms_on_def check_qgis_algorithms_def)
  next
    case (Some p)
    then have ne: "p \<noteq> []" using get_qgis_path_nonempty [of w p] rt by simp
    obtain x t2 where x: "try_check w p = (x, t2)" by (cases "try_check w p")
    have "\<exists>rest. snd (check_qgis_algorithms w) = system_information w @ t1 @ t2 @ rest"
      using rt Some ne x
      by (cases x) (auto simp: check_qgis_algorithms_def split: prod.splits)
    then have "\<And>s. Print s \<in> set (snd (try_check w p)) \<Longrightarrow> con s = None"
      using assms x by auto
    then have tc: "try_check_on con w p = (x, t2)"
      using try_check_on_accepts [of w p con] x by simp
    show ?thesis
    proof (cases x)
      case (Inr b)
      with tc x rt Some ne sys path show ?thesis
        by (simp add: check_qgis_algorithms_on_def check_qgis_algorithms_def)
    next
      case (Inl e)
      obtain y t3 where h: "check_handlers p e = (y, t3)" by (cases "check_handlers p e")
      have "snd (check_qgis_algorithms w) = system_information w @ t1 @ t2 @ t3"
        using rt Some ne x Inl h by (simp add: check_qgis_algorithms_def)
      then have "emit con t3 = (None, t3)"
        using assms by (intro emit_accepted) auto
      with Inl h tc x rt Some ne sys path show ?thesis
        by (simp add: check_qgis_algorithms_on_def check_qgis_algorithms_def)
    qed
  qed
qed

lemma info_trace_prefix: "\<exists>rest. snd (get_qgis_info w) = snd (get_qgis_path w) @ rest"
  by (cases "get_qgis_path w")
     (auto simp: get_qgis_info_def Let_def split: option.splits prod.splits sum.splits)

lemma info_on_accepts:
  assumes "\<And>s. Print s \<in> set (snd (get_qgis_path w)) \<Longrightarrow> con s = None"
  shows "get_qgis_info_on con w = get_qgis_info w"
  using get_qgis_path_on_accepts [OF assms] by (simp add: get_qgis_info_on_def)

lemma info_returns: "\<exists>d. fst (get_qgis_info w) = Inr d"
  by (cases "get_qgis_path w")
     (auto simp: get_qgis_info_def Let_def split: option.splits prod.splits sum.splits)

lemma info_on_raised:
  assumes "fst (get_qgis_info_on con w) = Inl e"
  shows "\<exists>s. con s = Some e"
proof -
  obtain r t where p: "get_qgis_path_on con w = (r, t)" by (cases "get_qgis_path_on con w")
  show ?thesis
  proof (cases r)
    case (Inl e1)
    with p assms have "fst (get_qgis_path_on con w) = Inl e"
      by (simp add: get_qgis_info_on_def)
    then show ?thesis
      using written_refused [of con "snd (get_qgis_path w)" "fst (get_qgis_path w)" e]
      by (simp add: get_qgis_path_on_def case_prod_unfold)
  next
    case (Inr q)
    with p assms info_returns [of w] show ?thesis
      by (auto simp: get_qgis_info_on_def)
  qed
qed

text \<open>
  Claim C4, as amended. In every world and on every console, no outcome of a subprocess
  invocation (exit code, timeout, missing binary or any other exception) leaves
  \<open>check_qgis_algorithms\<close> or \<open>get_qgis_info\<close> as an exception: an exception that leaves
  one of them is one that the console raised for a line. Whenever the console takes
  every line the operation writes, the run is the one in which every line is written:
  \<open>check_qgis_algorithms\<close> returns a boolean, true exactly when a path was resolved and
  the \<open>list\<close> invocation exited with code zero, and \<open>get_qgis_info\<close> returns a record
  that says whether a path was found and whether the \<open>list\<close> invocation succeeded, and
  carries an error text when it did not.
\<close>

theorem probes_raise_only_from_console:
  "(\<forall>e. fst (check_qgis_algorithms_on con w) = Inl e \<longrightarrow> (\<exists>s. con s = Some e)) \<and>
   (\<forall>e. fst (get_qgis_info_on con w) = Inl e \<longrightarrow> (\<exists>s. con s = Some e)) \<and>
   ((\<forall>s. Print s \<in> set (snd (check_qgis_algorithms w)) \<longrightarrow> con s = None) \<longrightarrow>
      check_qgis_algorithms_on con w = check_qgis_algorithms w \<and>
      (\<exists>b. fst (check_qgis_algorithms_on con w) = Inr b \<and>
           (b \<longleftrightarrow> (\<exists>p. fst (get_qgis_path w) = Some p \<and>
                         succeeded (subprocess_run w [p, ''list''] 60))))) \<and>
   ((\<forall>s. Print s \<in> set (snd (get_qgis_path w)) \<longrightarrow> con s = None) \<longrightarrow>
      get_qgis_info_on con w = get_qgis_info w \<and>
      (\<exists>d. fst (get_qgis_info_on con w) = Inr d \<and>
           d ''qgis_found'' = Some (PyBool (fst (get_qgis_path w) \<noteq> None)) \<and>
           (\<forall>p. fst (get_qgis_path w) = Some p \<longrightarrow>
                d ''qgis_working'' =
                  Some (PyBool (succeeded (subprocess_run w [p, ''list''] 30))) \<and>
                (\<not> succeeded (subprocess_run w [p, ''list''] 30) \<longrightarrow>
                   (\<exists>msg. d ''error'' = Some (PyStr msg))))))"
proof (intro conjI allI impI)
  fix e
  assume "fst (check_qgis_algorithms_on con w) = Inl e"
  then show "\<exists>s. con s = Some e" by (rule check_on_raised)
next
  fix e
  assume "fst (get_qgis_info_on con w) = Inl e"
  then show "\<exists>s. con s = Some e" by (rule info_on_raised)
next
  assume a: "\<forall>s. Print s \<in> set (snd (check_qgis_algorithms w)) \<longrightarrow> con s = None"
  then show eq: "check_qgis_algorithms_on con w = check_qgis_algorithms w"
    by (intro check_on_accepts) simp
  show "\<exists>b. fst (check_qgis_algorithms_on con w) = Inr b \<and>
           (b \<longleftrightarrow> (\<exists>p. fst (get_qgis_path w) = Some p \<and>
                         succeeded (subprocess_run w [p, ''list''] 60)))"
    unfolding eq using probe_results [of w] by (rule conjunct1)
next
  assume a: "\<forall>s. Print s \<in> set (snd (get_qgis_path w)) \<longrightarrow> con s = None"
  then show eq: "get_qgis_info_on con w = get_qgis_info w"
    by (intro info_on_accepts) simp
  show "\<exists>d. fst (get_qgis_info_on con w) = Inr d \<and>
           d ''qgis_found'' = Some (PyBool (fst (get_qgis_path w) \<noteq> None)) \<and>
           (\<forall>p. fst (get_qgis_path w) = Some p \<longrightarrow>
                d ''qgis_working'' =
                  Some (PyBool (succeeded (subprocess_run w [p, ''list''] 30))) \<and>
                (\<not> succeeded (subprocess_run w [p, ''list''] 30) \<longrightarrow>
                   (\<exists>msg. d ''error'' = Some (PyStr msg))))"
    unfolding eq using probe_results [of w] by (rule conjunct2)
qed

theorem probes_raise_only_from_console_witness:
  "check_qgis_algorithms_on accepting_console denied_world =
     check_qgis_algorithms denied_world \<and>
   fst (check_qgis_algorithms_on accepting_console denied_world) = Inr False \<and>
   get_qgis_info_on ascii_console denied_world = get_qgis_info denied_world \<and>
   (\<exists>d. fst (get_qgis_info_on ascii_console denied_world) = Inr d \<and>
        d ''qgis_found'' = Some (PyBool True) \<and>
        d ''qgis_working'' = Some (PyBool False))"
proof -
  note c = probes_raise_only_from_console [of accepting_console denied_world]
  note i = probes_raise_only_from_console [of ascii_console denied_world]
  have p: "get_qgis_path denied_world =
     (Some ''/usr/bin/qgis_process'',
      [Exists ''/usr/bin/qgis_process'', Print ''Found QGIS at: /usr/bin/qgis_process''])"
    by (simp add: denied_world_def linux_world_path)
  have s: "\<And>secs. \<not> succeeded (subprocess_run denied_world [''/usr/bin/qgis_process'', ''list''] secs)"
    by (simp add: denied_world_def linux_world_def example_world_def scripted_def succeeded_def)
  have h1: "\<forall>s. Print s \<in> set (snd (check_qgis_algorithms denied_world)) \<longrightarrow>
              accepting_console s = None"
    by (simp add: accepting_console_def)
  have h2: "\<forall>s. Print s \<in> set (snd (get_qgis_path denied_world)) \<longrightarrow> ascii_console s = None"
    by (simp add: p ascii_console_def)
  note c3 = c [THEN conjunct2, THEN conjunct2, THEN conjunct1, THEN mp, OF h1]
  note i4 = i [THEN conjunct2, THEN conjunct2, THEN conjunct2, THEN mp, OF h2]
  have a: "check_qgis_algorithms_on accepting_console denied_world =
     check_qgis_algorithms denied_world"
    using c3 by (rule conjunct1)
  have b: "fst (check_qgis_algorithms_on accepting_console denied_world) = Inr False"
    using c3 [THEN conjunct2] p s by auto
  have d: "get_qgis_info_on ascii_console denied_world = get_qgis_info denied_world"
    using i4 by (rule conjunct1)
  have e: "\<exists>d. fst (get_qgis_info_on ascii_console denied_world) = Inr d \<and>
        d ''qgis_found'' = Some (PyBool True) \<and>
        d ''qgis_working'' = Some (PyBool False)"
    using i4 [THEN conjunct2] p s by auto
  show ?thesis using a b d e by (intro conjI)
qed

text \<open>
  Claim C4 as stated fails on a standard output that encodes ASCII only: the first line
  of \<open>check_qgis_algorithms\<close>, written before the \<open>try\<close>, opens with a pictograph, and
  the operation ends there with the exception, on a working installation; and
  \<open>get_qgis_info\<close> ends with the exception when the resolver reports a path with a
  letter beyond ASCII.
\<close>

theorem probes_raise_only_from_console_counterexample:
  "check_qgis_algorithms_on ascii_console working_world =
     (Inl (OtherException ''UnicodeEncodeError'' ''ordinal not in range(128)''), []) \<and>
   get_qgis_info_on ascii_console accent_world =
     (Inl (OtherException ''UnicodeEncodeError'' ''ordinal not in range(128)''),
      [Exists (''/opt/qgis-'' @ [CHR 0xE9] @ ''/qgis_process'')])"
proof -
  have 1: "check_qgis_algorithms_on ascii_console working_world =
     (Inl (OtherException ''UnicodeEncodeError'' ''ordinal not in range(128)''), [])"
    by (simp add: check_qgis_algorithms_on_def written_def system_information_def
          ascii_console_def emoji_magnifier_def)
  have p: "get_qgis_path accent_world =
     (Some (''/opt/qgis-'' @ [CHR 0xE9] @ ''/qgis_process''),
      [Exists (''/opt/qgis-'' @ [CHR 0xE9] @ ''/qgis_process''),
       Print (''Using QGIS from environment variable: '' @
              ''/opt/qgis-'' @ [CHR 0xE9] @ ''/qgis_process'')])"
    by (simp add: accent_world_def example_world_def get_qgis_path_def os_path_exists_def)
  have 2: "get_qgis_info_on ascii_console accent_world =
     (Inl (OtherException ''UnicodeEncodeError'' ''ordinal not in range(128)''),
      [Exists (''/opt/qgis-'' @ [CHR 0xE9] @ ''/qgis_process'')])"
    by (simp add: get_qgis_info_on_def get_qgis_path_on_def p written_def ascii_console_def)
  show ?thesis using 1 2 by (intro conjI)
qed

end
